theory Spec2Isabelle
  imports Complex_Main
begin

section \<open>pycoQC: loading and cleaning a sequencing summary table\<close>

text \<open>
  This theory embeds the constructor \<^verbatim>\<open>pycoQC.__init__\<close> of
  \<^verbatim>\<open>src/pycoQC/pycoQC.py\<close> (lines 51 to 128): it reads a tab separated summary
  file into a pandas data frame, drops incomplete rows, recognises the 1D or the 2D column
  layout, optionally filters zero length reads and reads of other runs, counts the reads
  per run and indexes the table by \<^verbatim>\<open>read_id\<close>.

  The pandas operations the constructor calls are modelled with their documented
  behaviour. The numbers that a table holds (int64 and float64 values, the infinities
  among them) are a type parameter \<open>'n\<close>, of which only the zero and the order are
  used. The float64 division and multiplication of lines 90 and 93 are parameters as
  well, so nothing is assumed about their rounding.
\<close>

subsection \<open>Data frames\<close>

text \<open>
  A cell holds a number, a string, or the missing value \<^verbatim>\<open>NaN\<close> that
  \<^verbatim>\<open>read_csv\<close> puts where a field is empty.
\<close>

datatype 'n cell = NaN | Num 'n | Str string

text \<open>
  An index label is the position that \<^verbatim>\<open>read_csv\<close> and \<^verbatim>\<open>reset_index\<close> give a
  row, or the cell of the column that \<^verbatim>\<open>set_index\<close> makes the index.
\<close>

datatype 'n label = Position nat | Key "'n cell"

text \<open>
  A row carries its index label and its cells by column name. Only the cells of the
  columns listed in the frame belong to the table.
\<close>

record 'n row =
  label :: "'n label"
  cells :: "string \<Rightarrow> 'n cell"

record 'n frame =
  columns :: "string list"
  rows :: "'n row list"

text \<open>
  The arithmetic of pandas on a number of a series and a number written in the source:
  \<open>truediv fl x 450\<close> is the float64 value of \<^verbatim>\<open>x / 450\<close> and \<open>mul fl x 1.8\<close> that of
  \<^verbatim>\<open>x * 1.8\<close>.
\<close>

record 'n arith =
  truediv :: "'n \<Rightarrow> real \<Rightarrow> 'n"
  mul :: "'n \<Rightarrow> real \<Rightarrow> 'n"

datatype error =
    ReadError string
  | AssertionError string
  | KeyError string
  | TypeError

text \<open>Lines printed by the constructor, with the values they are formatted with.
  \<^verbatim>\<open>print\<close> is imported from the module \<^verbatim>\<open>pycoQC_fun\<close>, which is not among the
  sources; a call is taken to write its text as one line.\<close>

datatype msg =
    Importing_data
  | Reads_found nat
  | Checking_fields
  | Column_not_found_trying_2D string
  | All_valid string
  | Filter_out_zero_length_reads
  | Reads_discarded nat
  | Selecting_reads string
  | Counting_reads
  | Found_runid nat
  | Final_data_cleanup
  | Total_valid_reads nat

text \<open>
  The world outside the constructor: for each path, the frame that
  \<^verbatim>\<open>pd.read_csv(path, sep="\t")\<close> yields (no entry when the file cannot be read
  or parsed), and the lines printed so far.
\<close>

record 'n world =
  files :: "string \<Rightarrow> 'n frame option"
  stdout :: "msg list"

text \<open>The attributes of a constructed object. \<open>zero_len_reads\<close> is \<open>None\<close> while the
  attribute has not been assigned.\<close>

record 'n pycoQC =
  verbose :: bool
  seq_summary_file :: string
  df :: "'n frame"
  run_type :: string
  zero_len_reads :: "nat option"
  runid_counts :: "('n cell \<times> nat) list"
  total_reads :: nat

subsection \<open>Failing and printing computations\<close>

definition err_bind :: "error + 'a \<Rightarrow> ('a \<Rightarrow> error + 'b) \<Rightarrow> error + 'b" where
  "err_bind m f = (case m of Inl e \<Rightarrow> Inl e | Inr x \<Rightarrow> f x)"

fun traverse :: "('a \<Rightarrow> error + 'b) \<Rightarrow> 'a list \<Rightarrow> error + 'b list" where
  "traverse f [] = Inr []"
| "traverse f (x # xs) =
     err_bind (f x) (\<lambda>y. err_bind (traverse f xs) (\<lambda>ys. Inr (y # ys)))"

text \<open>A computation that prints lines and then returns a value or raises.\<close>

type_synonym 'a io = "msg list \<times> (error + 'a)"

definition io_return :: "'a \<Rightarrow> 'a io" where
  "io_return x = ([], Inr x)"

definition io_raise :: "error \<Rightarrow> 'a io" where
  "io_raise e = ([], Inl e)"

definition io_lift :: "error + 'a \<Rightarrow> 'a io" where
  "io_lift r = ([], r)"

definition io_print :: "msg \<Rightarrow> unit io" where
  "io_print m = ([m], Inr ())"

definition io_when :: "bool \<Rightarrow> unit io \<Rightarrow> unit io" where
  "io_when b m = (if b then m else io_return ())"

definition io_bind :: "'a io \<Rightarrow> ('a \<Rightarrow> 'b io) \<Rightarrow> 'b io" where
  "io_bind m f =
     (case m of
        (out, Inl e) \<Rightarrow> (out, Inl e)
      | (out, Inr x) \<Rightarrow> (case f x of (out', r) \<Rightarrow> (out @ out', r)))"

subsection \<open>The pandas operations used\<close>

text \<open>\<^verbatim>\<open>pd.read_csv\<close>: the frame of the file, or an error.\<close>

definition read_csv :: "'n world \<Rightarrow> string \<Rightarrow> error + 'n frame" where
  "read_csv w path =
     (case files w path of None \<Rightarrow> Inl (ReadError path) | Some d \<Rightarrow> Inr d)"

text \<open>\<^verbatim>\<open>df.dropna()\<close>: keeps the rows without a missing value in any column.\<close>

definition complete :: "string list \<Rightarrow> 'n row \<Rightarrow> bool" where
  "complete cols r = list_all (\<lambda>c. cells r c \<noteq> NaN) cols"

definition dropna :: "'n frame \<Rightarrow> 'n frame" where
  "dropna d = d\<lparr>rows := filter (complete (columns d)) (rows d)\<rparr>"

text \<open>\<^verbatim>\<open>df[c]\<close>: the column as a series, \<^verbatim>\<open>KeyError\<close> when there is no such column.\<close>

definition getitem :: "'n frame \<Rightarrow> string \<Rightarrow> error + 'n cell list" where
  "getitem d c =
     (if c \<in> set (columns d) then Inr (map (\<lambda>r. cells r c) (rows d))
      else Inl (KeyError c))"

text \<open>\<^verbatim>\<open>df[c] = series\<close>: replaces the column, or appends it when it is new.\<close>

definition setitem :: "'n frame \<Rightarrow> string \<Rightarrow> 'n cell list \<Rightarrow> 'n frame" where
  "setitem d c s =
     \<lparr>columns = (if c \<in> set (columns d) then columns d else columns d @ [c]),
      rows = map (\<lambda>(r, v). r\<lparr>cells := (cells r)(c := v)\<rparr>) (zip (rows d) s)\<rparr>"

text \<open>\<^verbatim>\<open>df[mask]\<close>: the rows where the boolean series is true.\<close>

definition select :: "'n frame \<Rightarrow> bool list \<Rightarrow> 'n frame" where
  "select d keep = d\<lparr>rows := map fst (filter snd (zip (rows d) keep))\<rparr>"

text \<open>Arithmetic and comparison of a series with a number. The quotient and the product
  of a number are those of the arithmetic \<open>fl\<close>; the comparison is the order of the
  numbers. A string operand raises \<^verbatim>\<open>TypeError\<close>; a missing value stays missing and
  compares false.\<close>

fun cell_div :: "'n arith \<Rightarrow> real \<Rightarrow> 'n cell \<Rightarrow> error + 'n cell" where
  "cell_div fl y (Num x) = Inr (Num (truediv fl x y))"
| "cell_div fl y NaN = Inr NaN"
| "cell_div fl y (Str s) = Inl TypeError"

fun cell_mul :: "'n arith \<Rightarrow> real \<Rightarrow> 'n cell \<Rightarrow> error + 'n cell" where
  "cell_mul fl y (Num x) = Inr (Num (mul fl x y))"
| "cell_mul fl y NaN = Inr NaN"
| "cell_mul fl y (Str s) = Inl TypeError"

fun cell_gt :: "'n::linorder \<Rightarrow> 'n cell \<Rightarrow> error + bool" where
  "cell_gt y (Num x) = Inr (y < x)"
| "cell_gt y NaN = Inr False"
| "cell_gt y (Str s) = Inl TypeError"

definition series_div :: "'n arith \<Rightarrow> 'n cell list \<Rightarrow> real \<Rightarrow> error + 'n cell list" where
  "series_div fl s y = traverse (cell_div fl y) s"

definition series_mul :: "'n arith \<Rightarrow> 'n cell list \<Rightarrow> real \<Rightarrow> error + 'n cell list" where
  "series_mul fl s y = traverse (cell_mul fl y) s"

definition series_gt :: "'n::linorder cell list \<Rightarrow> 'n \<Rightarrow> error + bool list" where
  "series_gt s y = traverse (cell_gt y) s"

text \<open>\<^verbatim>\<open>series == value\<close> never raises.\<close>

definition series_eq :: "'n cell list \<Rightarrow> 'n cell \<Rightarrow> bool list" where
  "series_eq s v = map (\<lambda>x. x = v) s"

text \<open>\<^verbatim>\<open>df.reset_index(drop=True)\<close>: the labels become 0, 1, 2, ...\<close>

definition reset_index :: "'n frame \<Rightarrow> 'n frame" where
  "reset_index d =
     d\<lparr>rows := map (\<lambda>(i, r). r\<lparr>label := Position i\<rparr>) (enumerate 0 (rows d))\<rparr>"

text \<open>\<^verbatim>\<open>df.set_index(c)\<close>: the column becomes the index and leaves the columns. The
  default \<^verbatim>\<open>verify_integrity=False\<close> checks nothing about the new labels.\<close>

definition set_index :: "'n frame \<Rightarrow> string \<Rightarrow> error + 'n frame" where
  "set_index d c =
     (if c \<in> set (columns d)
      then Inr \<lparr>columns = filter (\<lambda>x. x \<noteq> c) (columns d),
                rows = map (\<lambda>r. r\<lparr>label := Key (cells r c)\<rparr>) (rows d)\<rparr>
      else Inl (KeyError c))"

text \<open>
  \<^verbatim>\<open>series.value_counts(sort=True)\<close> is a parameter \<open>vc\<close> of the model. Its
  documented result has one entry per distinct value that is not missing, with the number
  of its occurrences, in descending order of that number. The order of entries with equal
  numbers is decided inside pandas and left open here.
\<close>

type_synonym 'n value_counts = "'n cell list \<Rightarrow> ('n cell \<times> nat) list"

definition value_counts_contract :: "'n value_counts \<Rightarrow> bool" where
  "value_counts_contract vc \<longleftrightarrow>
     (\<forall>s. distinct (map fst (vc s))
        \<and> set (map fst (vc s)) = set s - {NaN}
        \<and> (\<forall>(k, n) \<in> set (vc s). n = count_list s k)
        \<and> sorted_wrt (\<lambda>a b. snd b \<le> snd a) (vc s))"

text \<open>One function that meets the contract: the distinct values in the order of their
  first occurrence, sorted by insertion.\<close>

definition first_seen :: "'n cell list \<Rightarrow> 'n cell list" where
  "first_seen s = rev (remdups (rev (filter (\<lambda>x. x \<noteq> NaN) s)))"

definition value_counts_insort :: "'n value_counts" where
  "value_counts_insort s =
     sort_key (\<lambda>(k, n). - int n) (map (\<lambda>k. (k, count_list s k)) (first_seen s))"

subsection \<open>The constructor\<close>

definition fields_1D :: "string list" where
  "fields_1D = [''run_id'', ''channel'', ''start_time'', ''duration'', ''num_events'',
                ''sequence_length_template'', ''mean_qscore_template'']"

definition fields_2D :: "string list" where
  "fields_2D = [''run_id'', ''channel'', ''start_time'', ''sequence_length_2d'',
                ''mean_qscore_2d'']"

text \<open>The loop \<^verbatim>\<open>for colname in names: assert colname in df.columns\<close> stops at the
  first name that is not a column.\<close>

fun first_missing :: "string list \<Rightarrow> string list \<Rightarrow> string option" where
  "first_missing [] cols = None"
| "first_missing (colname # names) cols =
     (if colname \<in> set cols then first_missing names cols else Some colname)"

text \<open>Lines 87 to 97: estimated and renamed columns of a 2D table.\<close>

definition estimate_2D :: "'n arith \<Rightarrow> 'n frame \<Rightarrow> error + 'n frame" where
  "estimate_2D fl d =
     err_bind (getitem d ''sequence_length_2d'') (\<lambda>s.
     err_bind (series_div fl s 450) (\<lambda>dur.
     let d = setitem d ''duration'' dur in
     err_bind (getitem d ''sequence_length_2d'') (\<lambda>s.
     err_bind (series_mul fl s 1.8) (\<lambda>ev.
     let d = setitem d ''num_events'' ev in
     err_bind (getitem d ''sequence_length_2d'') (\<lambda>s.
     let d = setitem d ''sequence_length_template'' s in
     err_bind (getitem d ''mean_qscore_2d'') (\<lambda>q.
     Inr (setitem d ''mean_qscore_template'' q)))))))"

text \<open>Lines 73 to 101: the 1D columns are tried first; when one is missing its name is
  printed and the 2D columns are tried, whose assertion is not caught.\<close>

definition check_fields :: "'n arith \<Rightarrow> bool \<Rightarrow> 'n frame \<Rightarrow> ('n frame \<times> string) io" where
  "check_fields fl vb d =
     io_bind (io_when vb (io_print Checking_fields)) (\<lambda>_.
     io_bind
       (case first_missing fields_1D (columns d) of
          None \<Rightarrow> io_return (d, ''1D'')
        | Some colname \<Rightarrow>
            io_bind (io_print (Column_not_found_trying_2D colname)) (\<lambda>_.
            case first_missing fields_2D (columns d) of
              Some colname \<Rightarrow>
                io_raise (AssertionError
                  (''Column '' @ colname @ '' not found in the provided sequence_summary file''))
            | None \<Rightarrow>
                io_bind (io_lift (estimate_2D fl d)) (\<lambda>d. io_return (d, ''2D''))))
       (\<lambda>(d, rt).
     io_bind (io_when vb (io_print (All_valid rt))) (\<lambda>_.
     io_return (d, rt))))"

text \<open>Lines 103 to 109: without \<^verbatim>\<open>filter_zero_len\<close> the block is skipped and the
  attribute \<^verbatim>\<open>zero_len_reads\<close> is not assigned.\<close>

definition filter_zero_len_reads ::
  "bool \<Rightarrow> bool \<Rightarrow> 'n::{zero,linorder} frame \<Rightarrow> ('n frame \<times> nat option) io" where
  "filter_zero_len_reads filter_zero_len vb d =
     (if filter_zero_len then
        io_bind (io_when vb (io_print Filter_out_zero_length_reads)) (\<lambda>_.
        let l = length (rows d) in
        io_bind (io_lift (getitem d ''sequence_length_template'')) (\<lambda>s.
        io_bind (io_lift (series_gt s 0)) (\<lambda>keep.
        let d = select d keep;
            n = l - length (rows d) in
        io_bind (io_when vb (io_print (Reads_discarded n))) (\<lambda>_.
        io_return (d, Some n)))))
      else io_return (d, None))"

text \<open>\<^verbatim>\<open>if runid:\<close> holds for a string that is not empty; \<^verbatim>\<open>None\<close> and
  \<^verbatim>\<open>""\<close> are false.\<close>

fun truthy :: "string option \<Rightarrow> bool" where
  "truthy None = False"
| "truthy (Some s) = (s \<noteq> [])"

fun str_of :: "string option \<Rightarrow> string" where
  "str_of None = []"
| "str_of (Some s) = s"

text \<open>Lines 111 to 116: the number of discarded reads is printed, not kept.\<close>

definition select_runid :: "string option \<Rightarrow> bool \<Rightarrow> 'n frame \<Rightarrow> 'n frame io" where
  "select_runid runid vb d =
     (if truthy runid then
        io_bind (io_when vb (io_print (Selecting_reads (str_of runid)))) (\<lambda>_.
        let l = length (rows d) in
        io_bind (io_lift (getitem d ''run_id'')) (\<lambda>s.
        let d = select d (series_eq s (Str (str_of runid))) in
        io_bind (io_when vb (io_print (Reads_discarded (l - length (rows d))))) (\<lambda>_.
        io_return d)))
      else io_return d)"

text \<open>The body of the constructor, lines 64 to 128.\<close>

definition init_body ::
  "'n arith \<Rightarrow> 'n value_counts \<Rightarrow> 'n::{zero,linorder} world \<Rightarrow> string \<Rightarrow> string option
     \<Rightarrow> bool \<Rightarrow> bool \<Rightarrow> 'n pycoQC io" where
  "init_body fl vc w path runid filter_zero_len vb =
     io_bind (io_when vb (io_print Importing_data)) (\<lambda>_.
     io_bind (io_lift (read_csv w path)) (\<lambda>d.
     let d = dropna d in
     io_bind (io_when vb (io_print (Reads_found (length (rows d))))) (\<lambda>_.
     io_bind (check_fields fl vb d) (\<lambda>(d, rt).
     io_bind (filter_zero_len_reads filter_zero_len vb d) (\<lambda>(d, zl).
     io_bind (select_runid runid vb d) (\<lambda>d.
     io_bind (io_when vb (io_print Counting_reads)) (\<lambda>_.
     io_bind (io_lift (getitem d ''run_id'')) (\<lambda>s.
     let counts = vc s in
     io_bind (io_when vb (io_print (Found_runid (length counts)))) (\<lambda>_.
     io_bind (io_when vb (io_print Final_data_cleanup)) (\<lambda>_.
     let d = reset_index d in
     io_bind (io_lift (set_index d ''read_id'')) (\<lambda>d.
     let n = length (rows d) in
     io_bind (io_when vb (io_print (Total_valid_reads n))) (\<lambda>_.
     io_return \<lparr>verbose = vb, seq_summary_file = path, df = d, run_type = rt,
                zero_len_reads = zl, runid_counts = counts, total_reads = n\<rparr>))))))))))))"

text \<open>The constructor in its world: the printed lines are appended to the output, and the
  result is the object or the exception that ended the call.\<close>

definition init ::
  "'n arith \<Rightarrow> 'n value_counts \<Rightarrow> 'n::{zero,linorder} world \<Rightarrow> string \<Rightarrow> string option
     \<Rightarrow> bool \<Rightarrow> bool \<Rightarrow> 'n world \<times> (error + 'n pycoQC)" where
  "init fl vc w path runid filter_zero_len vb =
     (case init_body fl vc w path runid filter_zero_len vb of
        (out, r) \<Rightarrow> (w\<lparr>stdout := stdout w @ out\<rparr>, r))"

subsection \<open>Notions used to state the properties\<close>

text \<open>What an arithmetic operation of a series makes of a cell when it does not raise.\<close>

definition scale :: "('n \<Rightarrow> 'n) \<Rightarrow> 'n cell \<Rightarrow> 'n cell" where
  "scale f c = (case c of Num x \<Rightarrow> Num (f x) | _ \<Rightarrow> NaN)"

text \<open>The row of a 2D table after the estimates of lines 87 to 97.\<close>

definition estimate_row :: "'n arith \<Rightarrow> 'n row \<Rightarrow> 'n row" where
  "estimate_row fl r =
     r\<lparr>cells := (cells r)
        (''duration'' := scale (\<lambda>x. truediv fl x 450) (cells r ''sequence_length_2d''),
         ''num_events'' := scale (\<lambda>x. mul fl x 1.8) (cells r ''sequence_length_2d''),
         ''sequence_length_template'' := cells r ''sequence_length_2d'',
         ''mean_qscore_template'' := cells r ''mean_qscore_2d'')\<rparr>"

definition positive_length :: "'n::{zero,linorder} row \<Rightarrow> bool" where
  "positive_length r =
     (case cells r ''sequence_length_template'' of Num x \<Rightarrow> 0 < x | _ \<Rightarrow> False)"

definition in_run :: "string \<Rightarrow> 'n row \<Rightarrow> bool" where
  "in_run x r = (cells r ''run_id'' = Str x)"

text \<open>The rows that the two filters keep, in the order of the constructor.\<close>

definition after_zero_len :: "bool \<Rightarrow> 'n::{zero,linorder} row list \<Rightarrow> 'n row list" where
  "after_zero_len filter_zero_len rs =
     (if filter_zero_len then filter positive_length rs else rs)"

definition after_runid :: "string option \<Rightarrow> 'n row list \<Rightarrow> 'n row list" where
  "after_runid runid rs =
     (if truthy runid then filter (in_run (str_of runid)) rs else rs)"

definition kept ::
  "bool \<Rightarrow> string option \<Rightarrow> 'n::{zero,linorder} row list \<Rightarrow> 'n row list" where
  "kept filter_zero_len runid rs = after_runid runid (after_zero_len filter_zero_len rs)"

text \<open>The lines printed when \<open>vb\<close> is set.\<close>

definition say :: "bool \<Rightarrow> msg list \<Rightarrow> msg list" where
  "say vb ms = (if vb then ms else [])"

text \<open>The rows after the column check: those of a 2D table carry the estimates.\<close>

definition checked_rows :: "'n arith \<Rightarrow> 'n frame \<Rightarrow> 'n row list" where
  "checked_rows fl d =
     (if set fields_1D \<subseteq> set (columns d) then rows (dropna d)
      else map (estimate_row fl) (rows (dropna d)))"

text \<open>Every complete row has a number in the column.\<close>

definition numeric_column :: "string \<Rightarrow> 'n frame \<Rightarrow> bool" where
  "numeric_column c d =
     list_all (\<lambda>r. case cells r c of Num x \<Rightarrow> True | _ \<Rightarrow> False) (rows (dropna d))"

text \<open>
  The tables that the constructor takes: a \<^verbatim>\<open>read_id\<close> column, and the columns of
  one layout; the length of a 2D table is a number, and so is that of a 1D table when it
  is compared with zero. Nothing is asked of the \<^verbatim>\<open>read_id\<close> values.
\<close>

definition accepted :: "bool \<Rightarrow> 'n frame \<Rightarrow> bool" where
  "accepted filter_zero_len d =
     (''read_id'' \<in> set (columns d) \<and>
      (if set fields_1D \<subseteq> set (columns d)
       then (if filter_zero_len then numeric_column ''sequence_length_template'' d else True)
       else set fields_2D \<subseteq> set (columns d) \<and> numeric_column ''sequence_length_2d'' d))"

text \<open>What a run leaves besides the arguments it stores: the table, the layout, the
  counters and the table of counts, or the error.\<close>

definition result ::
  "error + 'n pycoQC
     \<Rightarrow> error + 'n frame \<times> string \<times> nat option \<times> nat \<times> ('n cell \<times> nat) list" where
  "result r =
     map_sum id
       (\<lambda>ob. (df ob, run_type ob, zero_len_reads ob, total_reads ob, runid_counts ob)) r"

text \<open>The same without the table of counts.\<close>

definition table_and_counters ::
  "error + 'n pycoQC \<Rightarrow> error + 'n frame \<times> string \<times> nat option \<times> nat" where
  "table_and_counters r =
     map_sum id (\<lambda>ob. (df ob, run_type ob, zero_len_reads ob, total_reads ob)) r"

text \<open>The value of an attribute of the constructed object; \<open>None\<close> when the constructor
  raised.\<close>

definition attribute :: "('n pycoQC \<Rightarrow> 'a) \<Rightarrow> 'n world \<times> (error + 'n pycoQC) \<Rightarrow> 'a option" where
  "attribute f res = (case snd res of Inl e \<Rightarrow> None | Inr ob \<Rightarrow> Some (f ob))"

subsection \<open>Example tables\<close>

text \<open>The row that \<^verbatim>\<open>read_csv\<close> makes of a line: its position as label, the fields
  by name.\<close>

definition parsed_row :: "nat \<Rightarrow> (string \<times> 'n cell) list \<Rightarrow> 'n row" where
  "parsed_row i kv =
     \<lparr>label = Position i, cells = (\<lambda>c. case map_of kv c of Some v \<Rightarrow> v | None \<Rightarrow> NaN)\<rparr>"

text \<open>Three reads of two runs in the 1D layout; read B has length zero.\<close>

definition summary_1D :: "real frame" where
  "summary_1D =
     \<lparr>columns = [''read_id'', ''run_id'', ''channel'', ''start_time'', ''duration'',
                 ''num_events'', ''sequence_length_template'', ''mean_qscore_template''],
      rows =
        [parsed_row 0 [(''read_id'', Str ''A''), (''run_id'', Str ''r1''), (''channel'', Num 5),
           (''start_time'', Num 0), (''duration'', Num 1), (''num_events'', Num 180),
           (''sequence_length_template'', Num 100), (''mean_qscore_template'', Num 9)],
         parsed_row 1 [(''read_id'', Str ''B''), (''run_id'', Str ''r1''), (''channel'', Num 5),
           (''start_time'', Num 1), (''duration'', Num 1), (''num_events'', Num 1),
           (''sequence_length_template'', Num 0), (''mean_qscore_template'', Num 8)],
         parsed_row 2 [(''read_id'', Str ''C''), (''run_id'', Str ''r2''), (''channel'', Num 10),
           (''start_time'', Num 2), (''duration'', Num 1), (''num_events'', Num 360),
           (''sequence_length_template'', Num 200), (''mean_qscore_template'', Num 10)]]\<rparr>"

text \<open>One read of 900 bases in the 2D layout.\<close>

definition summary_2D :: "real frame" where
  "summary_2D =
     \<lparr>columns = [''read_id'', ''run_id'', ''channel'', ''start_time'',
                 ''sequence_length_2d'', ''mean_qscore_2d''],
      rows =
        [parsed_row 0 [(''read_id'', Str ''A''), (''run_id'', Str ''r1''), (''channel'', Num 5),
           (''start_time'', Num 0), (''sequence_length_2d'', Num 900),
           (''mean_qscore_2d'', Num 9)]]\<rparr>"

text \<open>One read with the columns of both layouts.\<close>

definition summary_both :: "real frame" where
  "summary_both =
     \<lparr>columns = [''read_id'', ''run_id'', ''channel'', ''start_time'', ''duration'',
                 ''num_events'', ''sequence_length_template'', ''mean_qscore_template'',
                 ''sequence_length_2d'', ''mean_qscore_2d''],
      rows =
        [parsed_row 0 [(''read_id'', Str ''A''), (''run_id'', Str ''r1''), (''channel'', Num 5),
           (''start_time'', Num 0), (''duration'', Num 1), (''num_events'', Num 180),
           (''sequence_length_template'', Num 100), (''mean_qscore_template'', Num 9),
           (''sequence_length_2d'', Num 900), (''mean_qscore_2d'', Num 9)]]\<rparr>"

text \<open>Two reads of the 1D layout with the same \<^verbatim>\<open>read_id\<close>.\<close>

definition summary_dup :: "real frame" where
  "summary_dup =
     \<lparr>columns = [''read_id'', ''run_id'', ''channel'', ''start_time'', ''duration'',
                 ''num_events'', ''sequence_length_template'', ''mean_qscore_template''],
      rows =
        [parsed_row 0 [(''read_id'', Str ''A''), (''run_id'', Str ''r1''), (''channel'', Num 5),
           (''start_time'', Num 0), (''duration'', Num 1), (''num_events'', Num 180),
           (''sequence_length_template'', Num 100), (''mean_qscore_template'', Num 9)],
         parsed_row 1 [(''read_id'', Str ''A''), (''run_id'', Str ''r1''), (''channel'', Num 6),
           (''start_time'', Num 1), (''duration'', Num 1), (''num_events'', Num 90),
           (''sequence_length_template'', Num 50), (''mean_qscore_template'', Num 8)]]\<rparr>"

text \<open>A table of neither layout: \<^verbatim>\<open>mean_qscore_template\<close> is missing, and so are
  both 2D columns.\<close>

definition summary_neither :: "real frame" where
  "summary_neither =
     \<lparr>columns = [''read_id'', ''run_id'', ''channel'', ''start_time'', ''duration'',
                 ''num_events'', ''sequence_length_template''],
      rows =
        [parsed_row 0 [(''read_id'', Str ''A''), (''run_id'', Str ''r1''), (''channel'', Num 5),
           (''start_time'', Num 0), (''duration'', Num 1), (''num_events'', Num 180),
           (''sequence_length_template'', Num 100)]]\<rparr>"

text \<open>One read in the 2D layout whose length is not a number.\<close>

definition summary_2D_text :: "real frame" where
  "summary_2D_text =
     \<lparr>columns = [''read_id'', ''run_id'', ''channel'', ''start_time'',
                 ''sequence_length_2d'', ''mean_qscore_2d''],
      rows =
        [parsed_row 0 [(''read_id'', Str ''A''), (''run_id'', Str ''r1''), (''channel'', Num 5),
           (''start_time'', Num 0), (''sequence_length_2d'', Str ''long''),
           (''mean_qscore_2d'', Num 9)]]\<rparr>"

definition example_world :: "real world" where
  "example_world =
     \<lparr>files = map_of [(''1d.txt'', summary_1D), (''2d.txt'', summary_2D),
        (''both.txt'', summary_both), (''dup.txt'', summary_dup),
        (''neither.txt'', summary_neither), (''text.txt'', summary_2D_text)],
      stdout = []\<rparr>"

text \<open>An arithmetic for the examples: the exact quotient and product, which are the
  float64 ones on the one length that the examples estimate from (900 gives 2 and 1620).\<close>

definition example_arith :: "real arith" where
  "example_arith = \<lparr>truediv = (\<lambda>x y. x / y), mul = (\<lambda>x y. x * y)\<rparr>"


section \<open>Properties\<close>

subsection \<open>Failing and printing computations\<close>

lemma err_bind_Inr [simp]: "err_bind (Inr x) f = f x"
  by (simp add: err_bind_def)

lemma err_bind_Inl [simp]: "err_bind (Inl e) f = Inl e"
  by (simp add: err_bind_def)

lemma err_bind_eq_Inr: "err_bind m f = Inr y \<longleftrightarrow> (\<exists>x. m = Inr x \<and> f x = Inr y)"
  by (cases m) simp_all

lemma traverse_eq_map:
  assumes "traverse f xs = Inr ys" and "\<And>x y. f x = Inr y \<Longrightarrow> y = g x"
  shows "ys = map g xs"
  using assms(1)
proof (induction xs arbitrary: ys)
  case Nil
  then show ?case by simp
next
  case (Cons x xs)
  from Cons.prems obtain y zs where y: "f x = Inr y" and zs: "traverse f xs = Inr zs"
    and ys: "ys = y # zs"
    by (auto simp: err_bind_eq_Inr)
  from Cons.IH [OF zs] assms(2) [OF y] ys show ?case by simp
qed

lemma traverse_succeeds:
  assumes "traverse f xs = Inr ys" and "x \<in> set xs"
  shows "\<exists>y. f x = Inr y"
  using assms
  by (induction xs arbitrary: ys) (auto simp: err_bind_eq_Inr)

lemma traverse_total:
  assumes "\<And>x. x \<in> set xs \<Longrightarrow> f x = Inr (g x)"
  shows "traverse f xs = Inr (map g xs)"
  using assms by (induction xs) simp_all

lemmas io_defs = io_when_def io_print_def io_return_def io_raise_def io_lift_def

lemma io_bind_Inl [simp]: "io_bind (out, Inl e) f = (out, Inl e)"
  by (simp add: io_bind_def)

lemma io_bind_Inr [simp]: "io_bind (out, Inr x) f = (out @ fst (f x), snd (f x))"
  by (simp add: io_bind_def split: prod.splits)

lemma io_bind_eq_Inr:
  "io_bind m f = (out, Inr y) \<longleftrightarrow>
     (\<exists>o1 x o2. m = (o1, Inr x) \<and> f x = (o2, Inr y) \<and> out = o1 @ o2)"
  by (cases m; cases "snd m") (auto simp: io_bind_def split: prod.splits)

lemma io_bind_lift_eq_Inr:
  "io_bind (io_lift m) f = (out, Inr y) \<longleftrightarrow> (\<exists>x. m = Inr x \<and> f x = (out, Inr y))"
  by (auto simp: io_bind_eq_Inr io_lift_def)

lemma io_bind_say_eq_Inr:
  "io_bind (io_when vb (io_print m)) f = (out, Inr y) \<longleftrightarrow>
     (\<exists>o2. f () = (o2, Inr y) \<and> out = say vb [m] @ o2)"
  by (auto simp: io_bind_eq_Inr io_defs say_def)

subsection \<open>Series and frames\<close>

lemma zip_map_same: "map (\<lambda>(r, v). h r v) (zip xs (map g xs)) = map (\<lambda>r. h r (g r)) xs"
  by (induction xs) simp_all

lemma select_map: "map fst (filter snd (zip xs (map p xs))) = filter p xs"
  by (induction xs) simp_all

lemma getitem_eq_Inr:
  "getitem d c = Inr s \<longleftrightarrow> c \<in> set (columns d) \<and> s = map (\<lambda>r. cells r c) (rows d)"
  by (auto simp: getitem_def)

lemma cell_div_scale: "cell_div fl y c = Inr v \<Longrightarrow> v = scale (\<lambda>x. truediv fl x y) c"
  by (cases c) (auto simp: scale_def)

lemma cell_mul_scale: "cell_mul fl y c = Inr v \<Longrightarrow> v = scale (\<lambda>x. mul fl x y) c"
  by (cases c) (auto simp: scale_def)

lemma cell_gt_positive:
  "cell_gt 0 c = Inr b \<Longrightarrow> b = (case c of Num x \<Rightarrow> 0 < x | _ \<Rightarrow> False)"
  by (cases c) auto

lemma rows_setitem_map:
  "rows (setitem d c (map g (rows d))) = map (\<lambda>r. r\<lparr>cells := (cells r)(c := g r)\<rparr>) (rows d)"
  by (simp add: setitem_def zip_map_same)

lemma columns_setitem: "set (columns (setitem d c s)) = insert c (set (columns d))"
  by (auto simp: setitem_def)

lemma series_div_Inr:
  "series_div fl (map h rs) y = Inr s \<Longrightarrow> s = map (\<lambda>r. scale (\<lambda>x. truediv fl x y) (h r)) rs"
  using traverse_eq_map [of "cell_div fl y" "map h rs" s "scale (\<lambda>x. truediv fl x y)"]
  by (simp add: series_div_def cell_div_scale comp_def)

lemma series_mul_Inr:
  "series_mul fl (map h rs) y = Inr s \<Longrightarrow> s = map (\<lambda>r. scale (\<lambda>x. mul fl x y) (h r)) rs"
  using traverse_eq_map [of "cell_mul fl y" "map h rs" s "scale (\<lambda>x. mul fl x y)"]
  by (simp add: series_mul_def cell_mul_scale comp_def)

lemma series_gt_Inr:
  "series_gt (map h rs) 0 = Inr s \<Longrightarrow>
     s = map (\<lambda>r. case h r of Num x \<Rightarrow> 0 < x | _ \<Rightarrow> False) rs"
  using traverse_eq_map [of "cell_gt 0" "map h rs" s
      "\<lambda>c. case c of Num x \<Rightarrow> 0 < x | _ \<Rightarrow> False"]
  by (simp add: series_gt_def cell_gt_positive comp_def)

lemma series_div_no_Str:
  assumes "series_div fl s y = Inr t" and "c \<in> set s"
  shows "c = NaN \<or> (\<exists>x. c = Num x)"
proof -
  from traverse_succeeds [OF assms(1) [unfolded series_div_def] assms(2)]
  show ?thesis by (cases c) auto
qed

lemma series_div_total:
  assumes "\<And>r. r \<in> set rs \<Longrightarrow> \<exists>x. h r = Num x"
  shows "series_div fl (map h rs) y = Inr (map (\<lambda>r. scale (\<lambda>x. truediv fl x y) (h r)) rs)"
proof -
  have "traverse (cell_div fl y) (map h rs)
      = Inr (map (scale (\<lambda>x. truediv fl x y)) (map h rs))"
    by (rule traverse_total) (use assms in \<open>fastforce simp: scale_def\<close>)
  then show ?thesis
    by (simp add: series_div_def comp_def)
qed

lemma series_mul_total:
  assumes "\<And>r. r \<in> set rs \<Longrightarrow> \<exists>x. h r = Num x"
  shows "series_mul fl (map h rs) y = Inr (map (\<lambda>r. scale (\<lambda>x. mul fl x y) (h r)) rs)"
proof -
  have "traverse (cell_mul fl y) (map h rs)
      = Inr (map (scale (\<lambda>x. mul fl x y)) (map h rs))"
    by (rule traverse_total) (use assms in \<open>fastforce simp: scale_def\<close>)
  then show ?thesis
    by (simp add: series_mul_def comp_def)
qed

lemma series_gt_total:
  assumes "\<And>r. r \<in> set rs \<Longrightarrow> \<exists>x. h r = Num x"
  shows "series_gt (map h rs) 0
    = Inr (map (\<lambda>r. case h r of Num x \<Rightarrow> 0 < x | _ \<Rightarrow> False) rs)"
proof -
  have "traverse (cell_gt 0) (map h rs) =
      Inr (map (\<lambda>c. case c of Num x \<Rightarrow> 0 < x | _ \<Rightarrow> False) (map h rs))"
    by (rule traverse_total) (use assms in fastforce)
  then show ?thesis
    by (simp add: series_gt_def comp_def)
qed

lemma relabel_enumerate:
  "map ((\<lambda>r. r\<lparr>label := Key (cells r c)\<rparr>) \<circ> (\<lambda>(i, r). r\<lparr>label := Position i\<rparr>)) (enumerate n rs)
     = map (\<lambda>r. r\<lparr>label := Key (cells r c)\<rparr>) rs"
  by (induction rs arbitrary: n) simp_all

lemma set_index_reset_index:
  "set_index (reset_index d) c = Inr d' \<longleftrightarrow>
     c \<in> set (columns d) \<and>
     d' = \<lparr>columns = filter (\<lambda>x. x \<noteq> c) (columns d),
           rows = map (\<lambda>r. r\<lparr>label := Key (cells r c)\<rparr>) (rows d)\<rparr>"
  by (auto simp: set_index_def reset_index_def relabel_enumerate)

lemma read_csv_eq_Inr: "read_csv w p = Inr d \<longleftrightarrow> files w p = Some d"
  by (simp add: read_csv_def split: option.splits)

subsection \<open>The column check\<close>

lemma estimate_2D_rows:
  assumes "estimate_2D fl d = Inr d'"
  shows "rows d' = map (estimate_row fl) (rows d)"
proof -
  define d1 where "d1 = setitem d ''duration''
    (map (\<lambda>r. scale (\<lambda>x. truediv fl x 450) (cells r ''sequence_length_2d'')) (rows d))"
  define d2 where "d2 = setitem d1 ''num_events''
    (map (\<lambda>r. scale (\<lambda>x. mul fl x 1.8) (cells r ''sequence_length_2d'')) (rows d1))"
  define d3 where "d3 = setitem d2 ''sequence_length_template''
    (map (\<lambda>r. cells r ''sequence_length_2d'') (rows d2))"
  from assms obtain dur where
    dur: "series_div fl (map (\<lambda>r. cells r ''sequence_length_2d'') (rows d)) 450 = Inr dur" and
    rest1: "err_bind (getitem (setitem d ''duration'' dur) ''sequence_length_2d'') (\<lambda>s.
     err_bind (series_mul fl s 1.8) (\<lambda>ev.
     let d = setitem (setitem d ''duration'' dur) ''num_events'' ev in
     err_bind (getitem d ''sequence_length_2d'') (\<lambda>s.
     let d = setitem d ''sequence_length_template'' s in
     err_bind (getitem d ''mean_qscore_2d'') (\<lambda>q.
     Inr (setitem d ''mean_qscore_template'' q))))) = Inr d'"
    by (auto simp: estimate_2D_def err_bind_eq_Inr getitem_eq_Inr Let_def)
  have d1: "setitem d ''duration'' dur = d1"
    using series_div_Inr [OF dur] by (simp add: d1_def)
  from rest1 obtain ev where
    ev: "series_mul fl (map (\<lambda>r. cells r ''sequence_length_2d'') (rows d1)) 1.8 = Inr ev" and
    rest2: "err_bind (getitem (setitem d1 ''num_events'' ev) ''sequence_length_2d'') (\<lambda>s.
     let d = setitem (setitem d1 ''num_events'' ev) ''sequence_length_template'' s in
     err_bind (getitem d ''mean_qscore_2d'') (\<lambda>q.
     Inr (setitem d ''mean_qscore_template'' q))) = Inr d'"
    unfolding d1 by (auto simp: err_bind_eq_Inr getitem_eq_Inr Let_def)
  have d2: "setitem d1 ''num_events'' ev = d2"
    using series_mul_Inr [OF ev] by (simp add: d2_def)
  from rest2 have d': "d' = setitem d3 ''mean_qscore_template''
      (map (\<lambda>r. cells r ''mean_qscore_2d'') (rows d3))"
    unfolding d2 by (auto simp: err_bind_eq_Inr getitem_eq_Inr d3_def Let_def)
  have r1: "rows d1 = map (\<lambda>r. r\<lparr>cells := (cells r)(''duration'' :=
      scale (\<lambda>x. truediv fl x 450) (cells r ''sequence_length_2d''))\<rparr>) (rows d)"
    unfolding d1_def by (rule rows_setitem_map)
  have r2: "rows d2 = map (\<lambda>r. r\<lparr>cells := (cells r)(''num_events'' :=
      scale (\<lambda>x. mul fl x 1.8) (cells r ''sequence_length_2d''))\<rparr>) (rows d1)"
    unfolding d2_def by (rule rows_setitem_map)
  have r3: "rows d3 = map (\<lambda>r. r\<lparr>cells := (cells r)(''sequence_length_template'' :=
      cells r ''sequence_length_2d'')\<rparr>) (rows d2)"
    unfolding d3_def by (rule rows_setitem_map)
  have r4: "rows d' = map (\<lambda>r. r\<lparr>cells := (cells r)(''mean_qscore_template'' :=
      cells r ''mean_qscore_2d'')\<rparr>) (rows d3)"
    unfolding d' by (rule rows_setitem_map)
  show ?thesis
    unfolding r4 r3 r2 r1 by (simp add: comp_def estimate_row_def)
qed

lemma estimate_2D_columns:
  assumes "estimate_2D fl d = Inr d'"
  shows "set (columns d') = set (columns d) \<union>
    {''duration'', ''num_events'', ''sequence_length_template'', ''mean_qscore_template''}"
  using assms
  by (auto simp: estimate_2D_def err_bind_eq_Inr getitem_eq_Inr columns_setitem Let_def)

lemma estimate_2D_numeric:
  assumes "estimate_2D fl d = Inr d'" and "r \<in> set (rows d)"
  shows "cells r ''sequence_length_2d'' = NaN \<or> (\<exists>x. cells r ''sequence_length_2d'' = Num x)"
proof -
  from assms(1) obtain dur where
    "series_div fl (map (\<lambda>r. cells r ''sequence_length_2d'') (rows d)) 450 = Inr dur"
    by (auto simp: estimate_2D_def err_bind_eq_Inr getitem_eq_Inr)
  from series_div_no_Str [OF this, of "cells r ''sequence_length_2d''"] assms(2)
  show ?thesis by auto
qed

lemma estimate_2D_total:
  assumes cols: "''sequence_length_2d'' \<in> set (columns d)" "''mean_qscore_2d'' \<in> set (columns d)"
    and num: "\<And>r. r \<in> set (rows d) \<Longrightarrow> \<exists>x. cells r ''sequence_length_2d'' = Num x"
  shows "\<exists>d'. estimate_2D fl d = Inr d'"
proof -
  define d1 where "d1 = setitem d ''duration''
    (map (\<lambda>r. scale (\<lambda>x. truediv fl x 450) (cells r ''sequence_length_2d'')) (rows d))"
  have rows1: "rows d1 = map (\<lambda>r. r\<lparr>cells := (cells r)(''duration'' :=
      scale (\<lambda>x. truediv fl x 450) (cells r ''sequence_length_2d''))\<rparr>) (rows d)"
    unfolding d1_def by (rule rows_setitem_map)
  have num1: "\<exists>x. cells r ''sequence_length_2d'' = Num x" if "r \<in> set (rows d1)" for r
    using that num unfolding rows1 by auto
  have div: "series_div fl (map (\<lambda>r. cells r ''sequence_length_2d'') (rows d)) 450 =
      Inr (map (\<lambda>r. scale (\<lambda>x. truediv fl x 450) (cells r ''sequence_length_2d'')) (rows d))"
    by (rule series_div_total) (rule num)
  have mul: "series_mul fl (map (\<lambda>r. cells r ''sequence_length_2d'') (rows d1)) 1.8 =
      Inr (map (\<lambda>r. scale (\<lambda>x. mul fl x 1.8) (cells r ''sequence_length_2d'')) (rows d1))"
    by (rule series_mul_total) (rule num1)
  show ?thesis
    using cols div mul
    by (simp add: estimate_2D_def getitem_def Let_def columns_setitem d1_def [symmetric])
qed

lemma first_missing_None: "first_missing names cols = None \<longleftrightarrow> set names \<subseteq> set cols"
  by (induction names) auto

lemma first_missing_Some:
  "first_missing names cols = Some c \<Longrightarrow> c \<in> set names \<and> c \<notin> set cols"
  by (induction names) (auto split: if_splits)

lemma check_fields_1D:
  assumes "set fields_1D \<subseteq> set (columns d)"
  shows "check_fields fl vb d = (say vb [Checking_fields, All_valid ''1D''], Inr (d, ''1D''))"
proof -
  from assms have "first_missing fields_1D (columns d) = None"
    by (simp add: first_missing_None)
  then show ?thesis
    by (simp add: check_fields_def io_defs say_def)
qed

lemma check_fields_2D:
  assumes "first_missing fields_1D (columns d) = Some c"
    and "set fields_2D \<subseteq> set (columns d)"
  shows "check_fields fl vb d =
    (case estimate_2D fl d of
       Inl e \<Rightarrow> (say vb [Checking_fields] @ [Column_not_found_trying_2D c], Inl e)
     | Inr d' \<Rightarrow> (say vb [Checking_fields] @ [Column_not_found_trying_2D c]
                   @ say vb [All_valid ''2D''], Inr (d', ''2D'')))"
proof -
  from assms(2) have "first_missing fields_2D (columns d) = None"
    by (simp add: first_missing_None)
  with assms(1) show ?thesis
    by (simp add: check_fields_def io_defs say_def split: sum.splits)
qed

lemma check_fields_neither:
  assumes "first_missing fields_1D (columns d) = Some c1"
    and "first_missing fields_2D (columns d) = Some c2"
  shows "check_fields fl vb d =
    (say vb [Checking_fields] @ [Column_not_found_trying_2D c1],
     Inl (AssertionError
       (''Column '' @ c2 @ '' not found in the provided sequence_summary file'')))"
  using assms
  by (simp add: check_fields_def io_defs say_def)

lemma check_fields_Inr:
  assumes "snd (check_fields fl vb d) = Inr (d', rt)"
  shows "(rt = ''1D'' \<and> d' = d \<and> set fields_1D \<subseteq> set (columns d)) \<or>
         (rt = ''2D'' \<and> \<not> set fields_1D \<subseteq> set (columns d) \<and> set fields_2D \<subseteq> set (columns d)
            \<and> estimate_2D fl d = Inr d')"
proof (cases "first_missing fields_1D (columns d)")
  case None
  then have "set fields_1D \<subseteq> set (columns d)" by (simp add: first_missing_None)
  with assms check_fields_1D [OF this, of fl vb] show ?thesis by simp
next
  case (Some c1)
  then have no1: "\<not> set fields_1D \<subseteq> set (columns d)"
    using first_missing_None [of fields_1D "columns d"] by simp
  show ?thesis
  proof (cases "first_missing fields_2D (columns d)")
    case None
    then have two: "set fields_2D \<subseteq> set (columns d)" by (simp add: first_missing_None)
    from assms check_fields_2D [OF Some two, of fl vb] no1 two show ?thesis
      by (auto split: sum.splits)
  next
    case (Some c2)
    from assms check_fields_neither [OF \<open>first_missing fields_1D (columns d) = Some c1\<close> Some, of fl vb]
    show ?thesis by simp
  qed
qed

subsection \<open>The two filters\<close>

lemma select_positive:
  assumes "series_gt (map (\<lambda>r. cells r ''sequence_length_template'') (rows d)) 0 = Inr keep"
  shows "select d keep = d\<lparr>rows := filter positive_length (rows d)\<rparr>"
  unfolding series_gt_Inr [OF assms] select_def
  using select_map [of "rows d" positive_length]
  by (simp add: positive_length_def [abs_def])

lemma select_in_run:
  "select d (series_eq (map (\<lambda>r. cells r ''run_id'') (rows d)) (Str x)) =
     d\<lparr>rows := filter (in_run x) (rows d)\<rparr>"
  unfolding select_def series_eq_def
  using select_map [of "rows d" "in_run x"]
  by (simp add: in_run_def [abs_def] comp_def)

lemma filter_zero_len_reads_Inr:
  assumes "filter_zero_len_reads fz vb d = (out, Inr (d', zl))"
  shows "d' = d\<lparr>rows := after_zero_len fz (rows d)\<rparr> \<and>
    zl = (if fz then Some (length (rows d) - length (filter positive_length (rows d))) else None) \<and>
    out = (if fz then say vb [Filter_out_zero_length_reads,
           Reads_discarded (length (rows d) - length (filter positive_length (rows d)))] else [])"
proof (cases fz)
  case True
  with assms obtain keep where
    keep: "series_gt (map (\<lambda>r. cells r ''sequence_length_template'') (rows d)) 0 = Inr keep" and
    res: "d' = select d keep" "zl = Some (length (rows d) - length (rows (select d keep)))"
      "out = say vb [Filter_out_zero_length_reads] @
             say vb [Reads_discarded (length (rows d) - length (rows (select d keep)))]"
    by (auto simp: filter_zero_len_reads_def io_bind_say_eq_Inr io_bind_lift_eq_Inr
        io_return_def getitem_eq_Inr Let_def)
  from res True show ?thesis
    unfolding select_positive [OF keep] by (simp add: after_zero_len_def say_def)
next
  case False
  with assms show ?thesis
    by (simp add: filter_zero_len_reads_def io_return_def after_zero_len_def)
qed

lemma select_runid_Inr:
  assumes "select_runid runid vb d = (out, Inr d')"
  shows "d' = d\<lparr>rows := after_runid runid (rows d)\<rparr> \<and>
    out = (if truthy runid then say vb [Selecting_reads (str_of runid),
       Reads_discarded (length (rows d) - length (filter (in_run (str_of runid)) (rows d)))]
     else [])"
proof (cases "truthy runid")
  case True
  with assms show ?thesis
    by (auto simp: select_runid_def io_bind_say_eq_Inr io_bind_lift_eq_Inr
        io_return_def getitem_eq_Inr Let_def select_in_run after_runid_def say_def)
next
  case False
  with assms show ?thesis
    by (simp add: select_runid_def io_return_def after_runid_def)
qed

subsection \<open>The constructor as a whole\<close>

lemma init_body_Inr:
  assumes "init_body fl vc w p runid fz vb = (out, Inr ob)"
  obtains d0 o2 d2 where
    "files w p = Some d0"
    "check_fields fl vb (dropna d0) = (o2, Inr (d2, run_type ob))"
    "''run_id'' \<in> set (columns d2)"
    "''read_id'' \<in> set (columns d2)"
    "df ob = \<lparr>columns = filter (\<lambda>c. c \<noteq> ''read_id'') (columns d2),
              rows = map (\<lambda>r. r\<lparr>label := Key (cells r ''read_id'')\<rparr>) (kept fz runid (rows d2))\<rparr>"
    "zero_len_reads ob =
      (if fz then Some (length (rows d2) - length (filter positive_length (rows d2))) else None)"
    "runid_counts ob = vc (map (\<lambda>r. cells r ''run_id'') (kept fz runid (rows d2)))"
    "total_reads ob = length (kept fz runid (rows d2))"
    "verbose ob = vb"
    "seq_summary_file ob = p"
    "out = say vb [Importing_data, Reads_found (length (rows (dropna d0)))] @ o2
       @ (if fz then say vb [Filter_out_zero_length_reads,
            Reads_discarded (length (rows d2) - length (filter positive_length (rows d2)))]
          else [])
       @ (if truthy runid then say vb [Selecting_reads (str_of runid),
            Reads_discarded (length (after_zero_len fz (rows d2))
              - length (kept fz runid (rows d2)))]
          else [])
       @ say vb [Counting_reads, Found_runid (length (runid_counts ob)), Final_data_cleanup,
           Total_valid_reads (total_reads ob)]"
proof -
  from assms obtain d0 o2 d2 rt o3 d3 zl o4 d4 d5 where
    f: "files w p = Some d0" and
    c: "check_fields fl vb (dropna d0) = (o2, Inr (d2, rt))" and
    z: "filter_zero_len_reads fz vb d2 = (o3, Inr (d3, zl))" and
    r: "select_runid runid vb d3 = (o4, Inr d4)" and
    g: "''run_id'' \<in> set (columns d4)" and
    s: "set_index (reset_index d4) ''read_id'' = Inr d5" and
    ob: "ob = \<lparr>verbose = vb, seq_summary_file = p, df = d5, run_type = rt,
                zero_len_reads = zl, runid_counts = vc (map (\<lambda>r. cells r ''run_id'') (rows d4)),
                total_reads = length (rows d5)\<rparr>" and
    out: "out = say vb [Importing_data] @ say vb [Reads_found (length (rows (dropna d0)))]
       @ o2 @ o3 @ o4 @ say vb [Counting_reads]
       @ say vb [Found_runid (length (vc (map (\<lambda>r. cells r ''run_id'') (rows d4))))]
       @ say vb [Final_data_cleanup] @ say vb [Total_valid_reads (length (rows d5))]"
    unfolding init_body_def
    by (auto simp: io_bind_eq_Inr [of "check_fields _ _ _"]
        io_bind_eq_Inr [of "filter_zero_len_reads _ _ _"] io_bind_eq_Inr [of "select_runid _ _ _"]
        io_bind_say_eq_Inr io_bind_lift_eq_Inr io_return_def read_csv_eq_Inr Let_def
        getitem_eq_Inr)
  note z' = filter_zero_len_reads_Inr [OF z] and r' = select_runid_Inr [OF r]
  have rows3: "rows d3 = after_zero_len fz (rows d2)"
    and rows4: "rows d4 = kept fz runid (rows d2)" and cols4: "columns d4 = columns d2"
    using z' r' by (simp_all add: kept_def)
  from s have s': "''read_id'' \<in> set (columns d4)"
    "d5 = \<lparr>columns = filter (\<lambda>x. x \<noteq> ''read_id'') (columns d4),
           rows = map (\<lambda>r. r\<lparr>label := Key (cells r ''read_id'')\<rparr>) (rows d4)\<rparr>"
    by (simp_all add: set_index_reset_index)
  show ?thesis
  proof (rule that [of d0 o2 d2])
    show "files w p = Some d0" by (rule f)
    show "check_fields fl vb (dropna d0) = (o2, Inr (d2, run_type ob))" using c ob by simp
    show "''run_id'' \<in> set (columns d2)" using g cols4 by simp
    show "''read_id'' \<in> set (columns d2)" using s'(1) cols4 by simp
    show "df ob = \<lparr>columns = filter (\<lambda>c. c \<noteq> ''read_id'') (columns d2),
              rows = map (\<lambda>r. r\<lparr>label := Key (cells r ''read_id'')\<rparr>) (kept fz runid (rows d2))\<rparr>"
      using ob s'(2) rows4 cols4 by simp
    show "zero_len_reads ob =
      (if fz then Some (length (rows d2) - length (filter positive_length (rows d2))) else None)"
      using ob z' by simp
    show "runid_counts ob = vc (map (\<lambda>r. cells r ''run_id'') (kept fz runid (rows d2)))"
      using ob rows4 by simp
    show "total_reads ob = length (kept fz runid (rows d2))"
      using ob s'(2) rows4 by simp
    show "verbose ob = vb" using ob by simp
    show "seq_summary_file ob = p" using ob by simp
    have o3: "o3 = (if fz then say vb [Filter_out_zero_length_reads,
           Reads_discarded (length (rows d2) - length (filter positive_length (rows d2)))] else [])"
      using z' by simp
    have o4: "o4 = (if truthy runid then say vb [Selecting_reads (str_of runid),
            Reads_discarded (length (after_zero_len fz (rows d2))
              - length (kept fz runid (rows d2)))] else [])"
      using r' rows3 by (simp add: kept_def after_runid_def)
    show "out = say vb [Importing_data, Reads_found (length (rows (dropna d0)))] @ o2
       @ (if fz then say vb [Filter_out_zero_length_reads,
            Reads_discarded (length (rows d2) - length (filter positive_length (rows d2)))]
          else [])
       @ (if truthy runid then say vb [Selecting_reads (str_of runid),
            Reads_discarded (length (after_zero_len fz (rows d2))
              - length (kept fz runid (rows d2)))]
          else [])
       @ say vb [Counting_reads, Found_runid (length (runid_counts ob)), Final_data_cleanup,
           Total_valid_reads (total_reads ob)]"
      unfolding out o3 [symmetric] o4 [symmetric] using ob s'(2) rows4
      by (simp add: say_def)
  qed
qed


lemma snd_init: "snd (init fl vc w p runid fz vb) = snd (init_body fl vc w p runid fz vb)"
  by (simp add: init_def split: prod.splits)

lemma stdout_init:
  "stdout (fst (init fl vc w p runid fz vb)) = stdout w @ fst (init_body fl vc w p runid fz vb)"
  by (simp add: init_def split: prod.splits)

lemma files_init: "files (fst (init fl vc w p runid fz vb)) = files w"
  by (simp add: init_def split: prod.splits)

lemma init_body_files:
  "files w1 p = files w2 p \<Longrightarrow>
     init_body fl vc w1 p runid fz vb = init_body fl vc w2 p runid fz vb"
  by (simp add: init_body_def read_csv_def)

lemma init_Inr:
  assumes "snd (init fl vc w p runid fz vb) = Inr ob"
  obtains d0 o2 d2 where
    "files w p = Some d0"
    "check_fields fl vb (dropna d0) = (o2, Inr (d2, run_type ob))"
    "''run_id'' \<in> set (columns d2)"
    "''read_id'' \<in> set (columns d2)"
    "df ob = \<lparr>columns = filter (\<lambda>c. c \<noteq> ''read_id'') (columns d2),
              rows = map (\<lambda>r. r\<lparr>label := Key (cells r ''read_id'')\<rparr>) (kept fz runid (rows d2))\<rparr>"
    "zero_len_reads ob =
      (if fz then Some (length (rows d2) - length (filter positive_length (rows d2))) else None)"
    "runid_counts ob = vc (map (\<lambda>r. cells r ''run_id'') (kept fz runid (rows d2)))"
    "total_reads ob = length (kept fz runid (rows d2))"
    "stdout (fst (init fl vc w p runid fz vb)) = stdout w
       @ say vb [Importing_data, Reads_found (length (rows (dropna d0)))] @ o2
       @ (if fz then say vb [Filter_out_zero_length_reads,
            Reads_discarded (length (rows d2) - length (filter positive_length (rows d2)))]
          else [])
       @ (if truthy runid then say vb [Selecting_reads (str_of runid),
            Reads_discarded (length (after_zero_len fz (rows d2))
              - length (kept fz runid (rows d2)))]
          else [])
       @ say vb [Counting_reads, Found_runid (length (runid_counts ob)), Final_data_cleanup,
           Total_valid_reads (total_reads ob)]"
proof -
  from assms have "init_body fl vc w p runid fz vb = (fst (init_body fl vc w p runid fz vb), Inr ob)"
    by (simp add: snd_init prod_eq_iff)
  then show ?thesis
    apply (rule init_body_Inr)
    apply (rule that)
    apply (simp_all add: stdout_init)
    done
qed

lemma check_fields_length:
  assumes "check_fields fl vb d = (out, Inr (d', rt))"
  shows "length (rows d') = length (rows d)"
proof -
  from assms have "snd (check_fields fl vb d) = Inr (d', rt)" by simp
  from check_fields_Inr [OF this] show ?thesis
    by (auto dest: estimate_2D_rows)
qed

lemma length_filter_not:
  "length (filter (\<lambda>x. \<not> P x) xs) = length xs - length (filter P xs)"
  using sum_length_filter_compl [of P xs] by simp

lemma first_missing_first:
  "first_missing names cols = Some c \<Longrightarrow>
     \<exists>pre post. names = pre @ c # post \<and> set pre \<subseteq> set cols \<and> c \<notin> set cols"
proof (induction names)
  case Nil
  then show ?case by simp
next
  case (Cons n names)
  show ?case
  proof (cases "n \<in> set cols")
    case True
    with Cons.prems have "first_missing names cols = Some c" by simp
    from Cons.IH [OF this] obtain pre post where
      "names = pre @ c # post" "set pre \<subseteq> set cols" "c \<notin> set cols" by blast
    with True have "n # names = (n # pre) @ c # post \<and> set (n # pre) \<subseteq> set cols \<and> c \<notin> set cols"
      by simp
    then show ?thesis by blast
  next
    case False
    with Cons.prems have "c = n" by simp
    with False have "n # names = [] @ c # names \<and> set [] \<subseteq> set cols \<and> c \<notin> set cols"
      by simp
    then show ?thesis by blast
  qed
qed

subsection \<open>Counting values\<close>

lemma set_first_seen: "set (first_seen s) = set s - {NaN}"
  by (auto simp: first_seen_def)

lemma distinct_first_seen: "distinct (first_seen s)"
  by (simp add: first_seen_def)

lemma value_counts_insort_contract: "value_counts_contract value_counts_insort"
  unfolding value_counts_contract_def
proof (intro allI conjI)
  fix s
  let ?xs = "map (\<lambda>k. (k, count_list s k)) (first_seen s)"
  let ?f = "\<lambda>(k, n). - int n"
  have fst_xs: "map fst ?xs = first_seen s"
    by (simp add: comp_def)
  have "distinct ?xs"
    using distinct_first_seen [of s] by (simp add: distinct_map inj_on_def)
  moreover have "inj_on fst (set ?xs)"
    by (auto simp: inj_on_def)
  ultimately show "distinct (map fst (value_counts_insort s))"
    by (simp add: value_counts_insort_def distinct_map)
  show "set (map fst (value_counts_insort s)) = set s - {NaN}"
    using set_first_seen [of s] by (simp add: value_counts_insort_def image_image)
  show "\<forall>(k, n) \<in> set (value_counts_insort s). n = count_list s k"
    by (auto simp: value_counts_insort_def)
  have "sorted (map ?f (sort_key ?f ?xs))"
    by (rule sorted_sort_key)
  then show "sorted_wrt (\<lambda>a b. snd b \<le> snd a) (value_counts_insort s)"
    by (simp add: value_counts_insort_def sorted_wrt_map case_prod_beta)
qed

lemma contract_single:
  assumes "value_counts_contract vc" and "set s \<subseteq> {v}" and "v \<noteq> NaN"
  shows "vc s = (if s = [] then [] else [(v, length s)])"
proof -
  from assms(1) have d: "distinct (map fst (vc s))"
    and k: "set (map fst (vc s)) = set s - {NaN}"
    and n: "\<And>k n. (k, n) \<in> set (vc s) \<Longrightarrow> n = count_list s k"
    unfolding value_counts_contract_def by auto
  have cnt: "count_list s v = length s"
    using assms(2) by (induction s) auto
  show ?thesis
  proof (cases "s = []")
    case True
    with k show ?thesis by simp
  next
    case False
    with assms(2,3) have "set s - {NaN} = {v}"
      by (cases s) auto
    with k have keys: "set (map fst (vc s)) = {v}" by simp
    have "map fst (vc s) = [v]"
    proof (cases "map fst (vc s)")
      case Nil
      with keys show ?thesis by simp
    next
      case (Cons a as)
      with keys have a: "a = v" and as: "set as \<subseteq> {v}" by auto
      from d Cons a have "v \<notin> set as" by simp
      with as have "as = []" by (cases as) auto
      with Cons a show ?thesis by simp
    qed
    then obtain m where "vc s = [(v, m)]"
      by (cases "vc s") auto
    with n [of v m] cnt False show ?thesis by simp
  qed
qed



subsection \<open>Evaluation on the examples\<close>

lemmas model_defs = init_def init_body_def read_csv_def dropna_def complete_def
  check_fields_def estimate_2D_def fields_1D_def fields_2D_def
  filter_zero_len_reads_def select_runid_def getitem_def setitem_def select_def
  series_div_def series_mul_def series_gt_def series_eq_def reset_index_def set_index_def
  io_bind_def io_when_def io_print_def io_return_def io_raise_def io_lift_def
  value_counts_insort_def first_seen_def attribute_def enumerate_eq_zip

lemmas example_defs = example_world_def example_arith_def summary_1D_def summary_2D_def
  summary_2D_text_def summary_both_def
  summary_dup_def summary_neither_def parsed_row_def

subsection \<open>The read counts\<close>

lemma length_dropna:
  "length (rows (dropna d)) + length (filter (\<lambda>r. \<not> complete (columns d) r) (rows d))
     = length (rows d)"
  using sum_length_filter_compl [of "complete (columns d)" "rows d"]
  by (simp add: dropna_def)

lemma length_kept:
  "length (kept fz runid rs)
     + (if truthy runid
        then length (filter (\<lambda>r. \<not> in_run (str_of runid) r) (after_zero_len fz rs)) else 0)
     = length (after_zero_len fz rs)"
  using sum_length_filter_compl [of "in_run (str_of runid)" "after_zero_len fz rs"]
  by (simp add: kept_def after_runid_def)

lemma length_after_zero_len:
  "length (after_zero_len fz rs)
     + (if fz then length (filter (\<lambda>r. \<not> positive_length r) rs) else 0) = length rs"
  using sum_length_filter_compl [of positive_length rs]
  by (simp add: after_zero_len_def)

text \<open>
  Claim C2, as the constructor has it. The object keeps \<open>total_reads\<close>, and
  \<open>zero_len_reads\<close> only when \<open>filter_zero_len\<close> is set: otherwise the attribute is
  not assigned. The number of incomplete rows and the number of rows that the run filter
  removes are not kept. With the zero length count read as 0 when it is not assigned, the
  kept reads, the zero length reads, the incomplete rows and the rows of other runs add up
  to the rows of the parsed table.
\<close>

theorem read_counts:
  assumes "snd (init fl vc w p runid fz vb) = Inr ob"
  shows "\<exists>d0 o2 d2. files w p = Some d0
    \<and> check_fields fl vb (dropna d0) = (o2, Inr (d2, run_type ob))
    \<and> zero_len_reads ob =
        (if fz then Some (length (filter (\<lambda>r. \<not> positive_length r) (rows d2))) else None)
    \<and> total_reads ob
        + (case zero_len_reads ob of None \<Rightarrow> 0 | Some n \<Rightarrow> n)
        + length (filter (\<lambda>r. \<not> complete (columns d0) r) (rows d0))
        + (if truthy runid
           then length (filter (\<lambda>r. \<not> in_run (str_of runid) r) (after_zero_len fz (rows d2)))
           else 0)
      = length (rows d0)"
proof -
  from assms obtain d0 o2 d2 where
    f: "files w p = Some d0" and
    c: "check_fields fl vb (dropna d0) = (o2, Inr (d2, run_type ob))" and
    z: "zero_len_reads ob =
      (if fz then Some (length (rows d2) - length (filter positive_length (rows d2))) else None)" and
    t: "total_reads ob = length (kept fz runid (rows d2))"
    by (rule init_Inr)
  have z': "zero_len_reads ob =
      (if fz then Some (length (filter (\<lambda>r. \<not> positive_length r) (rows d2))) else None)"
    using z by (simp add: length_filter_not)
  have len: "length (rows d2) = length (rows (dropna d0))"
    by (rule check_fields_length [OF c])
  have "total_reads ob
        + (case zero_len_reads ob of None \<Rightarrow> 0 | Some n \<Rightarrow> n)
        + length (filter (\<lambda>r. \<not> complete (columns d0) r) (rows d0))
        + (if truthy runid
           then length (filter (\<lambda>r. \<not> in_run (str_of runid) r) (after_zero_len fz (rows d2)))
           else 0)
      = length (rows d0)"
    using length_dropna [of d0] length_kept [of fz runid "rows d2"]
      length_after_zero_len [of fz "rows d2"] len t z'
    by (simp split: if_splits)
  with f c z' show ?thesis by blast
qed

theorem read_counts_witness:
  "\<exists>ob. snd (init example_arith value_counts_insort example_world ''1d.txt'' (Some ''r2'') True False) = Inr ob
     \<and> zero_len_reads ob = Some 1 \<and> total_reads ob = 1
     \<and> length (rows summary_1D) = 3"
proof -
  have "\<exists>ob. snd (init example_arith value_counts_insort example_world ''1d.txt'' (Some ''r2'') True False) = Inr ob
      \<and> total_reads ob = 1"
    by (simp add: model_defs example_defs)
  then obtain ob where
    ob: "snd (init example_arith value_counts_insort example_world ''1d.txt'' (Some ''r2'') True False) = Inr ob"
    and t: "total_reads ob = 1"
    by (elim exE conjE)
  from read_counts [OF ob] obtain d0 o2 d2 where
    f: "files example_world ''1d.txt'' = Some d0" and
    c: "check_fields example_arith False (dropna d0) = (o2, Inr (d2, run_type ob))" and
    z: "zero_len_reads ob =
        (if True then Some (length (filter (\<lambda>r. \<not> positive_length r) (rows d2))) else None)"
    by (elim exE conjE)
  from f have d0: "d0 = summary_1D" by (simp add: example_world_def)
  have "check_fields example_arith False (dropna summary_1D) = ([], Inr (summary_1D, ''1D''))"
    by (simp add: model_defs example_defs)
  with c d0 have "d2 = summary_1D" by simp
  with z have "zero_len_reads ob = Some 1"
    by (simp add: summary_1D_def parsed_row_def positive_length_def)
  moreover have "length (rows summary_1D) = 3" by (simp add: summary_1D_def)
  ultimately show ?thesis using ob t by (intro exI [of _ ob] conjI)
qed

theorem zero_len_reads_unassigned:
  "attribute zero_len_reads
     (init example_arith value_counts_insort example_world ''1d.txt'' None False False) = Some None"
  by (simp add: model_defs example_defs)

subsection \<open>The zero length filter\<close>

lemma positive_length_not_zero:
  "positive_length r \<Longrightarrow> cells r ''sequence_length_template'' \<noteq> Num 0"
  by (auto simp: positive_length_def)

text \<open>
  Claim C4. With \<open>filter_zero_len\<close> set, no read of the constructed table has length
  zero, and \<open>zero_len_reads\<close> is the number of rows that the filter removed from the
  table it was given, which are the rows whose length is not above zero.
\<close>

theorem zero_length_filter:
  assumes "snd (init fl vc w p runid True vb) = Inr ob"
  shows "(\<forall>r \<in> set (rows (df ob)). cells r ''sequence_length_template'' \<noteq> Num 0)
    \<and> (\<exists>d0 o2 d2. files w p = Some d0
        \<and> check_fields fl vb (dropna d0) = (o2, Inr (d2, run_type ob))
        \<and> set (rows (df ob)) \<subseteq>
            (\<lambda>r. r\<lparr>label := Key (cells r ''read_id'')\<rparr>) ` set (filter positive_length (rows d2))
        \<and> zero_len_reads ob = Some (length (filter (\<lambda>r. \<not> positive_length r) (rows d2)))
        \<and> zero_len_reads ob
            = Some (length (rows d2) - length (filter positive_length (rows d2))))"
proof -
  from assms obtain d0 o2 d2 where
    f: "files w p = Some d0" and
    c: "check_fields fl vb (dropna d0) = (o2, Inr (d2, run_type ob))" and
    d: "df ob = \<lparr>columns = filter (\<lambda>c. c \<noteq> ''read_id'') (columns d2),
              rows = map (\<lambda>r. r\<lparr>label := Key (cells r ''read_id'')\<rparr>) (kept True runid (rows d2))\<rparr>" and
    z: "zero_len_reads ob =
      (if True then Some (length (rows d2) - length (filter positive_length (rows d2))) else None)"
    by (rule init_Inr)
  have sub: "set (kept True runid (rows d2)) \<subseteq> set (filter positive_length (rows d2))"
    by (auto simp: kept_def after_runid_def after_zero_len_def)
  have 1: "\<forall>r \<in> set (rows (df ob)). cells r ''sequence_length_template'' \<noteq> Num 0"
    using sub unfolding d by (auto dest: positive_length_not_zero)
  have 2: "set (rows (df ob)) \<subseteq>
            (\<lambda>r. r\<lparr>label := Key (cells r ''read_id'')\<rparr>) ` set (filter positive_length (rows d2))"
    using sub unfolding d by auto
  have 3: "zero_len_reads ob = Some (length (filter (\<lambda>r. \<not> positive_length r) (rows d2)))"
    using z by (simp add: length_filter_not)
  from z have 4: "zero_len_reads ob
      = Some (length (rows d2) - length (filter positive_length (rows d2)))"
    by simp
  from f c 2 3 4 have "\<exists>d0 o2 d2. files w p = Some d0
        \<and> check_fields fl vb (dropna d0) = (o2, Inr (d2, run_type ob))
        \<and> set (rows (df ob)) \<subseteq>
            (\<lambda>r. r\<lparr>label := Key (cells r ''read_id'')\<rparr>) ` set (filter positive_length (rows d2))
        \<and> zero_len_reads ob = Some (length (filter (\<lambda>r. \<not> positive_length r) (rows d2)))
        \<and> zero_len_reads ob
            = Some (length (rows d2) - length (filter positive_length (rows d2)))"
    by (intro exI [of _ d0] exI [of _ o2] exI [of _ d2] conjI)
  with 1 show ?thesis by (rule conjI)
qed

theorem zero_length_filter_witness:
  "\<exists>ob. snd (init example_arith value_counts_insort example_world ''1d.txt'' None True False) = Inr ob
     \<and> list_all (\<lambda>r. cells r ''sequence_length_template'' \<noteq> Num 0) (rows (df ob))
     \<and> zero_len_reads ob = Some 1 \<and> total_reads ob = 2"
proof -
  have "\<exists>ob. snd (init example_arith value_counts_insort example_world ''1d.txt'' None True False) = Inr ob
      \<and> total_reads ob = 2"
    by (simp add: model_defs example_defs)
  then obtain ob where
    ob: "snd (init example_arith value_counts_insort example_world ''1d.txt'' None True False) = Inr ob"
    and t: "total_reads ob = 2"
    by (elim exE conjE)
  note res = zero_length_filter [OF ob]
  from res have all: "list_all (\<lambda>r. cells r ''sequence_length_template'' \<noteq> Num 0) (rows (df ob))"
    by (simp add: list_all_iff)
  from res obtain d0 o2 d2 where
    f: "files example_world ''1d.txt'' = Some d0" and
    c: "check_fields example_arith False (dropna d0) = (o2, Inr (d2, run_type ob))" and
    z: "zero_len_reads ob = Some (length (filter (\<lambda>r. \<not> positive_length r) (rows d2)))"
    by (elim exE conjE)
  from f have d0: "d0 = summary_1D" by (simp add: example_world_def)
  have "check_fields example_arith False (dropna summary_1D) = ([], Inr (summary_1D, ''1D''))"
    by (simp add: model_defs example_defs)
  with c d0 have "d2 = summary_1D" by simp
  with z have "zero_len_reads ob = Some 1"
    by (simp add: summary_1D_def parsed_row_def positive_length_def)
  with ob all t show ?thesis by (intro exI [of _ ob] conjI)
qed

subsection \<open>The run filter\<close>

text \<open>
  Claim C5, as the constructor has it. With a \<open>runid\<close> that is not the empty string,
  every read of the constructed table has that \<open>run_id\<close>; the table of counts has the
  single entry of that run with \<open>total_reads\<close> when a read is left, and no entry when
  none is. The empty string selects nothing (claim C10).
\<close>

theorem runid_filter:
  assumes "value_counts_contract vc"
    and "snd (init fl vc w p (Some x) fz vb) = Inr ob"
    and "x \<noteq> []"
  shows "(\<forall>r \<in> set (rows (df ob)). cells r ''run_id'' = Str x)
    \<and> runid_counts ob = (if total_reads ob = 0 then [] else [(Str x, total_reads ob)])"
proof -
  from assms(2) obtain d0 o2 d2 where
    "files w p = Some d0" and
    "check_fields fl vb (dropna d0) = (o2, Inr (d2, run_type ob))" and
    d: "df ob = \<lparr>columns = filter (\<lambda>c. c \<noteq> ''read_id'') (columns d2),
          rows = map (\<lambda>r. r\<lparr>label := Key (cells r ''read_id'')\<rparr>) (kept fz (Some x) (rows d2))\<rparr>" and
    n: "runid_counts ob = vc (map (\<lambda>r. cells r ''run_id'') (kept fz (Some x) (rows d2)))" and
    t: "total_reads ob = length (kept fz (Some x) (rows d2))"
    by (rule init_Inr)
  have run: "in_run x r" if "r \<in> set (kept fz (Some x) (rows d2))" for r
    using that assms(3) by (simp add: kept_def after_runid_def)
  have 1: "\<forall>r \<in> set (rows (df ob)). cells r ''run_id'' = Str x"
    unfolding d using run by (auto simp: in_run_def)
  have "set (map (\<lambda>r. cells r ''run_id'') (kept fz (Some x) (rows d2))) \<subseteq> {Str x}"
    using run by (auto simp: in_run_def)
  from contract_single [OF assms(1) this]
  have 2: "runid_counts ob = (if total_reads ob = 0 then [] else [(Str x, total_reads ob)])"
    unfolding n t by simp
  from 1 2 show ?thesis by (rule conjI)
qed

theorem runid_filter_witness:
  "value_counts_contract value_counts_insort
   \<and> (\<exists>ob. snd (init example_arith value_counts_insort example_world ''1d.txt'' (Some ''r1'') False False)
              = Inr ob
         \<and> list_all (\<lambda>r. cells r ''run_id'' = Str ''r1'') (rows (df ob))
         \<and> runid_counts ob = [(Str ''r1'', 2)])"
proof (rule conjI)
  show "value_counts_contract value_counts_insort"
    by (rule value_counts_insort_contract)
  have "\<exists>ob. snd (init example_arith value_counts_insort example_world ''1d.txt'' (Some ''r1'') False False)
      = Inr ob \<and> total_reads ob = 2"
    by (simp add: model_defs example_defs)
  then obtain ob where
    ob: "snd (init example_arith value_counts_insort example_world ''1d.txt'' (Some ''r1'') False False) = Inr ob"
    and t: "total_reads ob = 2"
    by (elim exE conjE)
  have ne: "''r1'' \<noteq> []" by simp
  note res = runid_filter [OF value_counts_insort_contract ob ne]
  from res have "list_all (\<lambda>r. cells r ''run_id'' = Str ''r1'') (rows (df ob))"
    by (simp add: list_all_iff)
  moreover from res t have "runid_counts ob = [(Str ''r1'', 2)]"
    by simp
  ultimately
  show "\<exists>ob. snd (init example_arith value_counts_insort example_world ''1d.txt'' (Some ''r1'') False False)
              = Inr ob
         \<and> list_all (\<lambda>r. cells r ''run_id'' = Str ''r1'') (rows (df ob))
         \<and> runid_counts ob = [(Str ''r1'', 2)]"
    using ob by (intro exI [of _ ob] conjI)
qed

theorem runid_filter_counterexample:
  "attribute runid_counts
     (init example_arith value_counts_insort example_world ''1d.txt'' (Some ''r9'') False False) = Some []
   \<and> attribute (\<lambda>ob. map (\<lambda>r. cells r ''run_id'') (rows (df ob)))
       (init example_arith value_counts_insort example_world ''1d.txt'' (Some '''') False False)
     = Some [Str ''r1'', Str ''r1'', Str ''r2'']"
  by (simp add: model_defs example_defs)

subsection \<open>A table of neither layout\<close>

lemma init_neither:
  assumes "files w p = Some d0"
    and "first_missing fields_1D (columns d0) = Some c1"
    and "first_missing fields_2D (columns d0) = Some c2"
  shows "init_body fl vc w p runid fz vb =
    (say vb [Importing_data, Reads_found (length (rows (dropna d0))), Checking_fields]
       @ [Column_not_found_trying_2D c1],
     Inl (AssertionError
       (''Column '' @ c2 @ '' not found in the provided sequence_summary file'')))"
proof -
  have "check_fields fl vb (dropna d0) =
    (say vb [Checking_fields] @ [Column_not_found_trying_2D c1],
     Inl (AssertionError
       (''Column '' @ c2 @ '' not found in the provided sequence_summary file'')))"
    by (rule check_fields_neither) (use assms in \<open>simp_all add: dropna_def\<close>)
  with assms(1) show ?thesis
    by (simp add: init_body_def read_csv_def io_defs say_def)
qed

text \<open>
  Claim C6, as the constructor has it. A table that has neither all the 1D columns nor all
  the 2D columns ends the constructor with an \<^verbatim>\<open>AssertionError\<close> whose message names
  the first missing column of the 2D check. The first missing column of the 1D check is
  named in a line printed before, which also announces the 2D check.
\<close>

theorem neither_layout:
  assumes "files w p = Some d0"
    and "\<not> set fields_1D \<subseteq> set (columns d0)"
    and "\<not> set fields_2D \<subseteq> set (columns d0)"
  shows "\<exists>c1 c2. first_missing fields_1D (columns d0) = Some c1
    \<and> first_missing fields_2D (columns d0) = Some c2
    \<and> (\<exists>pre post. fields_1D = pre @ c1 # post \<and> set pre \<subseteq> set (columns d0)
          \<and> c1 \<notin> set (columns d0))
    \<and> (\<exists>pre post. fields_2D = pre @ c2 # post \<and> set pre \<subseteq> set (columns d0)
          \<and> c2 \<notin> set (columns d0))
    \<and> snd (init fl vc w p runid fz vb) = Inl (AssertionError
         (''Column '' @ c2 @ '' not found in the provided sequence_summary file''))
    \<and> stdout (fst (init fl vc w p runid fz vb)) = stdout w
         @ say vb [Importing_data, Reads_found (length (rows (dropna d0))), Checking_fields]
         @ [Column_not_found_trying_2D c1]"
proof -
  from assms(2) obtain c1 where c1: "first_missing fields_1D (columns d0) = Some c1"
    using first_missing_None [of fields_1D "columns d0"] by auto
  from assms(3) obtain c2 where c2: "first_missing fields_2D (columns d0) = Some c2"
    using first_missing_None [of fields_2D "columns d0"] by auto
  note body = init_neither [OF assms(1) c1 c2, of fl vc runid fz vb]
  have "snd (init fl vc w p runid fz vb) = Inl (AssertionError
         (''Column '' @ c2 @ '' not found in the provided sequence_summary file''))"
    unfolding snd_init body by simp
  moreover have "stdout (fst (init fl vc w p runid fz vb)) = stdout w
         @ say vb [Importing_data, Reads_found (length (rows (dropna d0))), Checking_fields]
         @ [Column_not_found_trying_2D c1]"
    unfolding stdout_init body by simp
  ultimately show ?thesis
    using c1 c2 first_missing_first [OF c1] first_missing_first [OF c2]
    by (intro exI [of _ c1] exI [of _ c2] conjI)
qed

theorem neither_layout_witness:
  "snd (init example_arith value_counts_insort example_world ''neither.txt'' None False True)
     = Inl (AssertionError
         ''Column sequence_length_2d not found in the provided sequence_summary file'')
   \<and> stdout (fst (init example_arith value_counts_insort example_world ''neither.txt'' None False True))
     = [Importing_data, Reads_found 1, Checking_fields,
        Column_not_found_trying_2D ''mean_qscore_template'']"
proof -
  have f: "files example_world ''neither.txt'' = Some summary_neither"
    by (simp add: example_world_def)
  have n1: "\<not> set fields_1D \<subseteq> set (columns summary_neither)"
    by (simp add: fields_1D_def summary_neither_def)
  have n2: "\<not> set fields_2D \<subseteq> set (columns summary_neither)"
    by (simp add: fields_2D_def summary_neither_def)
  from neither_layout [OF f n1 n2, of example_arith value_counts_insort None False True]
  obtain c1 c2 where
    c1: "first_missing fields_1D (columns summary_neither) = Some c1" and
    c2: "first_missing fields_2D (columns summary_neither) = Some c2" and
    e: "snd (init example_arith value_counts_insort example_world ''neither.txt'' None False True)
      = Inl (AssertionError
         (''Column '' @ c2 @ '' not found in the provided sequence_summary file''))" and
    s: "stdout (fst (init example_arith value_counts_insort example_world ''neither.txt'' None False True))
      = stdout example_world
         @ say True [Importing_data, Reads_found (length (rows (dropna summary_neither))),
             Checking_fields]
         @ [Column_not_found_trying_2D c1]"
    by (elim exE conjE)
  from c1 have "c1 = ''mean_qscore_template''"
    by (simp add: fields_1D_def summary_neither_def)
  moreover from c2 have "c2 = ''sequence_length_2d''"
    by (simp add: fields_2D_def summary_neither_def)
  ultimately show ?thesis
    using e s
    by (simp add: say_def example_world_def summary_neither_def parsed_row_def dropna_def
        complete_def)
qed

theorem neither_layout_counterexample:
  "first_missing fields_1D (columns summary_neither) = Some ''mean_qscore_template''
   \<and> snd (init example_arith value_counts_insort example_world ''neither.txt'' None False False)
     = Inl (AssertionError
         ''Column sequence_length_2d not found in the provided sequence_summary file'')"
  by (simp add: model_defs example_defs)

subsection \<open>The order of the two filters\<close>

lemma filter_positive_in_run:
  "filter (in_run x) (filter positive_length rs)
     = filter (\<lambda>r. positive_length r \<and> in_run x r) rs"
  by (induction rs) auto

lemma length_positive_other_run:
  "length (filter positive_length rs)
     - length (filter (\<lambda>r. positive_length r \<and> in_run x r) rs)
   = length (filter (\<lambda>r. positive_length r \<and> \<not> in_run x r) rs)"
proof -
  have "length (filter (\<lambda>r. \<not> in_run x r) (filter positive_length rs))
      = length (filter positive_length rs) - length (filter (in_run x) (filter positive_length rs))"
    by (rule length_filter_not)
  moreover have "filter (\<lambda>r. \<not> in_run x r) (filter positive_length rs)
      = filter (\<lambda>r. positive_length r \<and> \<not> in_run x r) rs"
    by (induction rs) auto
  ultimately show ?thesis by (simp add: filter_positive_in_run)
qed

text \<open>
  Claim C7. With both filters, the zero length filter runs first: \<open>zero_len_reads\<close>
  counts every row whose length is not above zero, whatever its run, and the number that
  the run filter reports as discarded counts only rows of positive length of another run.
  A row of length zero of another run is so counted once, by the zero length filter.
\<close>

theorem zero_length_before_runid:
  assumes "snd (init fl vc w p (Some x) True vb) = Inr ob" and "x \<noteq> []"
  shows "\<exists>d0 o2 d2. files w p = Some d0
    \<and> check_fields fl vb (dropna d0) = (o2, Inr (d2, run_type ob))
    \<and> zero_len_reads ob = Some (length (filter (\<lambda>r. \<not> positive_length r) (rows d2)))
    \<and> total_reads ob = length (filter (\<lambda>r. positive_length r \<and> in_run x r) (rows d2))
    \<and> stdout (fst (init fl vc w p (Some x) True vb)) = stdout w
        @ say vb [Importing_data, Reads_found (length (rows (dropna d0)))] @ o2
        @ say vb [Filter_out_zero_length_reads,
            Reads_discarded (length (filter (\<lambda>r. \<not> positive_length r) (rows d2))),
            Selecting_reads x,
            Reads_discarded
              (length (filter (\<lambda>r. positive_length r \<and> \<not> in_run x r) (rows d2))),
            Counting_reads, Found_runid (length (runid_counts ob)), Final_data_cleanup,
            Total_valid_reads (total_reads ob)]"
proof -
  from assms(1) obtain d0 o2 d2 where
    f: "files w p = Some d0" and
    c: "check_fields fl vb (dropna d0) = (o2, Inr (d2, run_type ob))" and
    z: "zero_len_reads ob =
      (if True then Some (length (rows d2) - length (filter positive_length (rows d2))) else None)" and
    t: "total_reads ob = length (kept True (Some x) (rows d2))" and
    s: "stdout (fst (init fl vc w p (Some x) True vb)) = stdout w
       @ say vb [Importing_data, Reads_found (length (rows (dropna d0)))] @ o2
       @ (if True then say vb [Filter_out_zero_length_reads,
            Reads_discarded (length (rows d2) - length (filter positive_length (rows d2)))]
          else [])
       @ (if truthy (Some x) then say vb [Selecting_reads (str_of (Some x)),
            Reads_discarded (length (after_zero_len True (rows d2))
              - length (kept True (Some x) (rows d2)))]
          else [])
       @ say vb [Counting_reads, Found_runid (length (runid_counts ob)), Final_data_cleanup,
           Total_valid_reads (total_reads ob)]"
    by (rule init_Inr)
  have k: "kept True (Some x) (rows d2)
      = filter (\<lambda>r. positive_length r \<and> in_run x r) (rows d2)"
    using assms(2)
    by (simp add: kept_def after_runid_def after_zero_len_def filter_positive_in_run)
  have 1: "zero_len_reads ob = Some (length (filter (\<lambda>r. \<not> positive_length r) (rows d2)))"
    using z by (simp add: length_filter_not)
  have 2: "total_reads ob = length (filter (\<lambda>r. positive_length r \<and> in_run x r) (rows d2))"
    using t k by simp
  have 3: "stdout (fst (init fl vc w p (Some x) True vb)) = stdout w
        @ say vb [Importing_data, Reads_found (length (rows (dropna d0)))] @ o2
        @ say vb [Filter_out_zero_length_reads,
            Reads_discarded (length (filter (\<lambda>r. \<not> positive_length r) (rows d2))),
            Selecting_reads x,
            Reads_discarded
              (length (filter (\<lambda>r. positive_length r \<and> \<not> in_run x r) (rows d2))),
            Counting_reads, Found_runid (length (runid_counts ob)), Final_data_cleanup,
            Total_valid_reads (total_reads ob)]"
    unfolding s k using assms(2)
    by (simp add: say_def after_zero_len_def length_filter_not length_positive_other_run)
  from f c 1 2 3 show ?thesis
    by (intro exI [of _ d0] exI [of _ o2] exI [of _ d2] conjI)
qed

theorem zero_length_before_runid_witness:
  "\<exists>ob. snd (init example_arith value_counts_insort example_world ''1d.txt'' (Some ''r2'') True True) = Inr ob
     \<and> zero_len_reads ob = Some 1
     \<and> stdout (fst (init example_arith value_counts_insort example_world ''1d.txt'' (Some ''r2'') True True))
       = [Importing_data, Reads_found 3, Checking_fields, All_valid ''1D'',
          Filter_out_zero_length_reads, Reads_discarded 1, Selecting_reads ''r2'',
          Reads_discarded 1, Counting_reads, Found_runid 1, Final_data_cleanup,
          Total_valid_reads 1]"
proof -
  have "\<exists>ob. snd (init example_arith value_counts_insort example_world ''1d.txt'' (Some ''r2'') True True) = Inr ob
      \<and> length (runid_counts ob) = 1"
    by (simp add: model_defs example_defs)
  then obtain ob where
    ob: "snd (init example_arith value_counts_insort example_world ''1d.txt'' (Some ''r2'') True True) = Inr ob"
    and n: "length (runid_counts ob) = 1"
    by (elim exE conjE)
  have ne: "''r2'' \<noteq> []" by simp
  from zero_length_before_runid [OF ob ne] obtain d0 o2 d2 where
    f: "files example_world ''1d.txt'' = Some d0" and
    c: "check_fields example_arith True (dropna d0) = (o2, Inr (d2, run_type ob))" and
    z: "zero_len_reads ob = Some (length (filter (\<lambda>r. \<not> positive_length r) (rows d2)))" and
    t: "total_reads ob = length (filter (\<lambda>r. positive_length r \<and> in_run ''r2'' r) (rows d2))" and
    s: "stdout (fst (init example_arith value_counts_insort example_world ''1d.txt'' (Some ''r2'') True True))
      = stdout example_world
        @ say True [Importing_data, Reads_found (length (rows (dropna d0)))] @ o2
        @ say True [Filter_out_zero_length_reads,
            Reads_discarded (length (filter (\<lambda>r. \<not> positive_length r) (rows d2))),
            Selecting_reads ''r2'',
            Reads_discarded
              (length (filter (\<lambda>r. positive_length r \<and> \<not> in_run ''r2'' r) (rows d2))),
            Counting_reads, Found_runid (length (runid_counts ob)), Final_data_cleanup,
            Total_valid_reads (total_reads ob)]"
    by (elim exE conjE)
  from f have d0: "d0 = summary_1D" by (simp add: example_world_def)
  have "check_fields example_arith True (dropna summary_1D)
      = ([Checking_fields, All_valid ''1D''], Inr (summary_1D, ''1D''))"
    by (simp add: model_defs example_defs)
  with c d0 have d2: "d2 = summary_1D" and o2: "o2 = [Checking_fields, All_valid ''1D'']"
    by auto
  have dn: "length (rows (dropna summary_1D)) = 3"
    by (simp add: dropna_def complete_def summary_1D_def parsed_row_def)
  from z have "zero_len_reads ob = Some 1"
    unfolding d2 by (simp add: summary_1D_def parsed_row_def positive_length_def)
  moreover from s t n dn
  have "stdout (fst (init example_arith value_counts_insort example_world ''1d.txt'' (Some ''r2'') True True))
       = [Importing_data, Reads_found 3, Checking_fields, All_valid ''1D'',
          Filter_out_zero_length_reads, Reads_discarded 1, Selecting_reads ''r2'',
          Reads_discarded 1, Counting_reads, Found_runid 1, Final_data_cleanup,
          Total_valid_reads 1]"
    unfolding d0 d2 o2
    by (simp add: say_def example_world_def summary_1D_def parsed_row_def positive_length_def
        in_run_def)
  ultimately show ?thesis using ob by (intro exI [of _ ob] conjI)
qed

subsection \<open>An empty run id\<close>


subsection \<open>The table of counts\<close>

lemma count_list_map: "count_list (map f xs) k = length (filter (\<lambda>x. f x = k) xs)"
  by (induction xs) simp_all

text \<open>
  What the contract of \<^verbatim>\<open>value_counts\<close> gives for the table of counts (claim C8):
  one entry per run of the kept reads, with the number of its reads, in descending order of
  that number. The order among runs with equal numbers is not fixed by the contract, so
  nothing is stated about it.
\<close>

lemma runid_counts_descending:
  assumes "value_counts_contract vc" and "snd (init fl vc w p runid fz vb) = Inr ob"
  shows "\<exists>d0 o2 d2. files w p = Some d0
    \<and> check_fields fl vb (dropna d0) = (o2, Inr (d2, run_type ob))
    \<and> distinct (map fst (runid_counts ob))
    \<and> set (map fst (runid_counts ob))
        = (\<lambda>r. cells r ''run_id'') ` set (kept fz runid (rows d2)) - {NaN}
    \<and> (\<forall>(k, n) \<in> set (runid_counts ob).
          n = length (filter (\<lambda>r. cells r ''run_id'' = k) (kept fz runid (rows d2))))
    \<and> sorted_wrt (\<lambda>a b. snd b \<le> snd a) (runid_counts ob)"
proof -
  from assms(2) obtain d0 o2 d2 where
    f: "files w p = Some d0" and
    c: "check_fields fl vb (dropna d0) = (o2, Inr (d2, run_type ob))" and
    n: "runid_counts ob = vc (map (\<lambda>r. cells r ''run_id'') (kept fz runid (rows d2)))"
    by (rule init_Inr)
  let ?s = "map (\<lambda>r. cells r ''run_id'') (kept fz runid (rows d2))"
  from assms(1) have d: "distinct (map fst (vc ?s))"
    and k: "set (map fst (vc ?s)) = set ?s - {NaN}"
    and m: "\<forall>(k, n) \<in> set (vc ?s). n = count_list ?s k"
    and s: "sorted_wrt (\<lambda>a b. snd b \<le> snd a) (vc ?s)"
    unfolding value_counts_contract_def by blast+
  from f c d k m s show ?thesis
    unfolding n count_list_map
    by (intro exI [of _ d0] exI [of _ o2] exI [of _ d2] conjI) simp_all
qed

subsection \<open>Tables that the constructor takes\<close>

lemma traverse_TypeError:
  assumes "\<And>y e. f y = Inl e \<Longrightarrow> e = TypeError"
    and "x \<in> set xs" and "f x = Inl e0"
  shows "traverse f xs = Inl TypeError"
  using assms(2,3)
proof (induction xs)
  case Nil
  then show ?case by simp
next
  case (Cons a as)
  show ?case
  proof (cases "f a")
    case (Inl e)
    with assms(1) [of a e] show ?thesis by simp
  next
    case (Inr y)
    with Cons have "traverse f as = Inl TypeError" by auto
    with Inr show ?thesis by simp
  qed
qed

lemma cell_div_Inl: "cell_div fl y c = Inl e \<Longrightarrow> e = TypeError"
  by (cases c) auto

lemma estimate_2D_TypeError:
  assumes "''sequence_length_2d'' \<in> set (columns d)"
    and "r \<in> set (rows d)" and "cells r ''sequence_length_2d'' = Str s"
  shows "estimate_2D fl d = Inl TypeError"
proof -
  have "traverse (cell_div fl 450) (map (\<lambda>r. cells r ''sequence_length_2d'') (rows d))
      = Inl TypeError"
  proof (rule traverse_TypeError)
    show "cell_div fl 450 y = Inl e \<Longrightarrow> e = TypeError" for y e
      by (rule cell_div_Inl)
    show "cells r ''sequence_length_2d'' \<in> set (map (\<lambda>r. cells r ''sequence_length_2d'') (rows d))"
      using assms(2) by auto
    show "cell_div fl 450 (cells r ''sequence_length_2d'') = Inl TypeError"
      using assms(3) by simp
  qed
  with assms(1) show ?thesis
    by (simp add: estimate_2D_def getitem_def series_div_def)
qed

lemma filter_zero_len_reads_total:
  assumes "''sequence_length_template'' \<in> set (columns d)"
    and "fz \<Longrightarrow> \<forall>r \<in> set (rows d). \<exists>x. cells r ''sequence_length_template'' = Num x"
  shows "\<exists>out d' zl. filter_zero_len_reads fz vb d = (out, Inr (d', zl))"
proof (cases fz)
  case True
  with assms(2) have "series_gt (map (\<lambda>r. cells r ''sequence_length_template'') (rows d)) 0
    = Inr (map (\<lambda>r. case cells r ''sequence_length_template'' of Num x \<Rightarrow> 0 < x | _ \<Rightarrow> False)
        (rows d))"
    by (intro series_gt_total) blast
  with True assms(1) show ?thesis
    by (simp add: filter_zero_len_reads_def getitem_def io_defs Let_def)
next
  case False
  then show ?thesis by (simp add: filter_zero_len_reads_def io_defs)
qed

lemma select_runid_total:
  assumes "''run_id'' \<in> set (columns d)"
  shows "\<exists>out d'. select_runid runid vb d = (out, Inr d')"
  using assms by (simp add: select_runid_def getitem_def io_defs Let_def)

lemma numeric_columnD:
  "numeric_column c d \<Longrightarrow> r \<in> set (rows (dropna d)) \<Longrightarrow> \<exists>x. cells r c = Num x"
  by (cases "cells r c") (auto simp: numeric_column_def list_all_iff)

lemma check_fields_accepted:
  assumes "accepted fz d0"
  shows "\<exists>o2 d2 rt. check_fields fl vb (dropna d0) = (o2, Inr (d2, rt))
    \<and> set (columns d0) \<subseteq> set (columns d2)
    \<and> ''sequence_length_template'' \<in> set (columns d2)
    \<and> ''run_id'' \<in> set (columns d2)
    \<and> (fz \<longrightarrow> (\<forall>r \<in> set (rows d2). \<exists>x. cells r ''sequence_length_template'' = Num x))"
proof (cases "set fields_1D \<subseteq> set (columns d0)")
  case True
  then have one: "set fields_1D \<subseteq> set (columns (dropna d0))" by (simp add: dropna_def)
  from True have cols: "''sequence_length_template'' \<in> set (columns d0)"
    "''run_id'' \<in> set (columns d0)"
    by (auto simp: fields_1D_def)
  from assms True have "fz \<longrightarrow> numeric_column ''sequence_length_template'' d0"
    by (simp add: accepted_def split: if_splits)
  then have "fz \<longrightarrow> (\<forall>r \<in> set (rows (dropna d0)). \<exists>x. cells r ''sequence_length_template'' = Num x)"
    by (auto dest: numeric_columnD)
  with check_fields_1D [OF one, of fl vb] cols show ?thesis
    by (auto simp: dropna_def)
next
  case False
  with assms have two: "set fields_2D \<subseteq> set (columns d0)"
    and num: "numeric_column ''sequence_length_2d'' d0"
    by (simp_all add: accepted_def)
  from False obtain c where c: "first_missing fields_1D (columns (dropna d0)) = Some c"
    using first_missing_None [of fields_1D "columns d0"] by (auto simp: dropna_def)
  from two have cols: "''sequence_length_2d'' \<in> set (columns (dropna d0))"
    "''mean_qscore_2d'' \<in> set (columns (dropna d0))" "''run_id'' \<in> set (columns d0)"
    by (auto simp: fields_2D_def dropna_def)
  have "\<exists>d'. estimate_2D fl (dropna d0) = Inr d'"
    by (rule estimate_2D_total [OF cols(1,2)]) (rule numeric_columnD [OF num])
  then obtain d2 where est: "estimate_2D fl (dropna d0) = Inr d2" by blast
  from two have two': "set fields_2D \<subseteq> set (columns (dropna d0))" by (simp add: dropna_def)
  have rows2: "rows d2 = map (estimate_row fl) (rows (dropna d0))"
    by (rule estimate_2D_rows [OF est])
  have "\<forall>r \<in> set (rows d2). \<exists>x. cells r ''sequence_length_template'' = Num x"
    unfolding rows2 using numeric_columnD [OF num] by (auto simp: estimate_row_def)
  with check_fields_2D [OF c two', of fl vb] est estimate_2D_columns [OF est] cols(3)
  show ?thesis
    by (auto simp: dropna_def)
qed

lemma init_accepts:
  assumes f: "files w p = Some d0" and a: "accepted fz d0"
  shows "\<exists>ob. snd (init fl vc w p runid fz vb) = Inr ob"
proof -
  from check_fields_accepted [OF a, of fl vb] obtain o2 d2 rt where
    c: "check_fields fl vb (dropna d0) = (o2, Inr (d2, rt))" and
    sub: "set (columns d0) \<subseteq> set (columns d2)" and
    slt: "''sequence_length_template'' \<in> set (columns d2)" and
    run: "''run_id'' \<in> set (columns d2)" and
    num: "fz \<longrightarrow> (\<forall>r \<in> set (rows d2). \<exists>x. cells r ''sequence_length_template'' = Num x)"
    by blast
  from a sub have rid: "''read_id'' \<in> set (columns d2)"
    by (auto simp: accepted_def)
  from filter_zero_len_reads_total [OF slt, of fz vb] num obtain o3 d3 zl where
    z: "filter_zero_len_reads fz vb d2 = (o3, Inr (d3, zl))" by blast
  from filter_zero_len_reads_Inr [OF z] have cols3: "columns d3 = columns d2" by simp
  from select_runid_total [of d3 runid vb] run cols3 obtain o4 d4 where
    r: "select_runid runid vb d3 = (o4, Inr d4)" by auto
  from select_runid_Inr [OF r] cols3 have cols4: "columns d4 = columns d2" by simp
  have "\<exists>ob. snd (init_body fl vc w p runid fz vb) = Inr ob"
    using f c z r run rid cols4
    by (simp add: init_body_def read_csv_def io_defs getitem_def set_index_def reset_index_def
        Let_def)
  then show ?thesis by (simp add: snd_init)
qed

subsection \<open>The column layouts\<close>

lemma init_2D_numeric:
  assumes c: "check_fields fl vb (dropna d0) = (o2, Inr (d2, rt))"
    and no1: "\<not> set fields_1D \<subseteq> set (columns d0)"
    and r: "r \<in> set (rows d2)"
  shows "rt = ''2D'' \<and> (\<exists>x. cells r ''sequence_length_2d'' = Num x
    \<and> cells r ''duration'' = Num (truediv fl x 450)
    \<and> cells r ''num_events'' = Num (mul fl x 1.8))"
proof -
  from c have "snd (check_fields fl vb (dropna d0)) = Inr (d2, rt)" by simp
  from check_fields_Inr [OF this] no1
  have rt: "rt = ''2D''" and two: "set fields_2D \<subseteq> set (columns d0)"
    and est: "estimate_2D fl (dropna d0) = Inr d2"
    by (auto simp: dropna_def)
  from r estimate_2D_rows [OF est] obtain r0 where
    r0: "r0 \<in> set (rows (dropna d0))" and rr: "r = estimate_row fl r0" by auto
  from two have "''sequence_length_2d'' \<in> set (columns d0)"
    by (auto simp: fields_2D_def)
  with r0 have "cells r0 ''sequence_length_2d'' \<noteq> NaN"
    by (auto simp: dropna_def complete_def list_all_iff)
  with estimate_2D_numeric [OF est r0] obtain x where
    "cells r0 ''sequence_length_2d'' = Num x" by auto
  with rr rt show ?thesis
    by (simp add: estimate_row_def scale_def)
qed

lemma check_fields_TypeError:
  assumes no1: "\<not> set fields_1D \<subseteq> set (columns d)"
    and two: "set fields_2D \<subseteq> set (columns d)"
    and r: "r \<in> set (rows d)" and s: "cells r ''sequence_length_2d'' = Str s"
  shows "\<exists>out. check_fields fl vb d = (out, Inl TypeError)"
proof -
  from no1 obtain c where c: "first_missing fields_1D (columns d) = Some c"
    using first_missing_None [of fields_1D "columns d"] by auto
  from two have "''sequence_length_2d'' \<in> set (columns d)"
    by (auto simp: fields_2D_def)
  from estimate_2D_TypeError [OF this r s] check_fields_2D [OF c two, of fl vb]
  show ?thesis by simp
qed

lemma init_TypeError:
  assumes f: "files w p = Some d0"
    and no1: "\<not> set fields_1D \<subseteq> set (columns d0)"
    and two: "set fields_2D \<subseteq> set (columns d0)"
    and r: "r \<in> set (rows (dropna d0))" and s: "cells r ''sequence_length_2d'' = Str s"
  shows "snd (init fl vc w p runid fz vb) = Inl TypeError"
proof -
  have "\<exists>out. check_fields fl vb (dropna d0) = (out, Inl TypeError)"
    by (rule check_fields_TypeError [OF _ _ r s]) (use no1 two in \<open>simp_all add: dropna_def\<close>)
  then obtain out where "check_fields fl vb (dropna d0) = (out, Inl TypeError)" by blast
  with f have "snd (init_body fl vc w p runid fz vb) = Inl TypeError"
    by (simp add: init_body_def read_csv_def io_defs)
  then show ?thesis by (simp add: snd_init)
qed

text \<open>
  Claim C1, as the constructor has it. The column check is ordered. A table with all
  seven 1D columns is taken as 1D and returned as it is, whatever other columns it has. A
  table that lacks one of them and has the five 2D columns is taken as 2D when the cells
  of \<open>sequence_length_2d\<close> are numbers: then in every row \<open>duration\<close> is what the
  float64 division of that length by 450 gives and \<open>num_events\<close> what its float64
  multiplication by 1.8 gives. When a cell of that column is a string, the check ends
  with \<^verbatim>\<open>TypeError\<close> and no layout is set. The same holds of the constructor as a
  whole, which returns an object for every table it accepts.
\<close>

theorem schema_detection:
  "(set fields_1D \<subseteq> set (columns d) \<longrightarrow> snd (check_fields fl vb d) = Inr (d, ''1D''))
   \<and> (\<not> set fields_1D \<subseteq> set (columns d) \<and> set fields_2D \<subseteq> set (columns d)
        \<and> (\<forall>r \<in> set (rows d). \<exists>x. cells r ''sequence_length_2d'' = Num x)
      \<longrightarrow> (\<exists>d'. snd (check_fields fl vb d) = Inr (d', ''2D'')
            \<and> list_all2 (\<lambda>r r'. \<exists>x. cells r ''sequence_length_2d'' = Num x
                  \<and> cells r' ''duration'' = Num (truediv fl x 450)
                  \<and> cells r' ''num_events'' = Num (mul fl x 1.8)) (rows d) (rows d')))
   \<and> (\<not> set fields_1D \<subseteq> set (columns d) \<and> set fields_2D \<subseteq> set (columns d)
        \<and> (\<exists>r \<in> set (rows d). \<exists>s. cells r ''sequence_length_2d'' = Str s)
      \<longrightarrow> snd (check_fields fl vb d) = Inl TypeError)
   \<and> (files w p = Some d0 \<and> accepted fz d0
      \<longrightarrow> (\<exists>ob. snd (init fl vc w p runid fz vb) = Inr ob))
   \<and> (snd (init fl vc w p runid fz vb) = Inr ob \<and> files w p = Some d0
        \<and> set fields_1D \<subseteq> set (columns d0)
      \<longrightarrow> run_type ob = ''1D''
          \<and> (\<forall>r \<in> set (rows (df ob)). \<exists>r0 \<in> set (rows d0). cells r = cells r0))
   \<and> (snd (init fl vc w p runid fz vb) = Inr ob \<and> files w p = Some d0
        \<and> \<not> set fields_1D \<subseteq> set (columns d0) \<and> set fields_2D \<subseteq> set (columns d0)
      \<longrightarrow> run_type ob = ''2D''
          \<and> (\<forall>r \<in> set (rows (df ob)). \<exists>x. cells r ''sequence_length_2d'' = Num x
                \<and> cells r ''duration'' = Num (truediv fl x 450)
                \<and> cells r ''num_events'' = Num (mul fl x 1.8)))
   \<and> (files w p = Some d0
        \<and> \<not> set fields_1D \<subseteq> set (columns d0) \<and> set fields_2D \<subseteq> set (columns d0)
        \<and> (\<exists>r \<in> set (rows (dropna d0)). \<exists>s. cells r ''sequence_length_2d'' = Str s)
      \<longrightarrow> snd (init fl vc w p runid fz vb) = Inl TypeError)"
proof (intro conjI impI)
  assume "set fields_1D \<subseteq> set (columns d)"
  then show "snd (check_fields fl vb d) = Inr (d, ''1D'')"
    by (simp add: check_fields_1D)
next
  assume a: "\<not> set fields_1D \<subseteq> set (columns d) \<and> set fields_2D \<subseteq> set (columns d)
        \<and> (\<forall>r \<in> set (rows d). \<exists>x. cells r ''sequence_length_2d'' = Num x)"
  then obtain c where c: "first_missing fields_1D (columns d) = Some c"
    using first_missing_None [of fields_1D "columns d"] by auto
  from a have cols: "''sequence_length_2d'' \<in> set (columns d)" "''mean_qscore_2d'' \<in> set (columns d)"
    by (auto simp: fields_2D_def)
  from estimate_2D_total [OF cols, of fl] a obtain d' where est: "estimate_2D fl d = Inr d'"
    by blast
  have "list_all2 (\<lambda>r r'. \<exists>x. cells r ''sequence_length_2d'' = Num x
                  \<and> cells r' ''duration'' = Num (truediv fl x 450)
                  \<and> cells r' ''num_events'' = Num (mul fl x 1.8)) (rows d) (rows d')"
    unfolding estimate_2D_rows [OF est] list_all2_map2
  proof (rule list_all2_same [THEN iffD2], rule ballI)
    fix r assume "r \<in> set (rows d)"
    with a obtain x where "cells r ''sequence_length_2d'' = Num x" by blast
    then show "\<exists>x. cells r ''sequence_length_2d'' = Num x
        \<and> cells (estimate_row fl r) ''duration'' = Num (truediv fl x 450)
        \<and> cells (estimate_row fl r) ''num_events'' = Num (mul fl x 1.8)"
      by (simp add: estimate_row_def scale_def)
  qed
  moreover from a c est have "snd (check_fields fl vb d) = Inr (d', ''2D'')"
    by (simp add: check_fields_2D)
  ultimately show "\<exists>d'. snd (check_fields fl vb d) = Inr (d', ''2D'')
            \<and> list_all2 (\<lambda>r r'. \<exists>x. cells r ''sequence_length_2d'' = Num x
                  \<and> cells r' ''duration'' = Num (truediv fl x 450)
                  \<and> cells r' ''num_events'' = Num (mul fl x 1.8)) (rows d) (rows d')"
    by blast
next
  assume a: "\<not> set fields_1D \<subseteq> set (columns d) \<and> set fields_2D \<subseteq> set (columns d)
        \<and> (\<exists>r \<in> set (rows d). \<exists>s. cells r ''sequence_length_2d'' = Str s)"
  then obtain r s where "r \<in> set (rows d)" "cells r ''sequence_length_2d'' = Str s"
    by blast
  from check_fields_TypeError [OF _ _ this, of fl vb] a
  show "snd (check_fields fl vb d) = Inl TypeError"
    by auto
next
  assume "files w p = Some d0 \<and> accepted fz d0"
  then show "\<exists>ob. snd (init fl vc w p runid fz vb) = Inr ob"
    by (auto intro: init_accepts)
next
  assume a: "snd (init fl vc w p runid fz vb) = Inr ob \<and> files w p = Some d0
        \<and> set fields_1D \<subseteq> set (columns d0)"
  then have ok: "snd (init fl vc w p runid fz vb) = Inr ob" by simp
  from ok obtain d0' o2 d2 where
    f: "files w p = Some d0'" and
    c: "check_fields fl vb (dropna d0') = (o2, Inr (d2, run_type ob))" and
    d: "df ob = \<lparr>columns = filter (\<lambda>c. c \<noteq> ''read_id'') (columns d2),
         rows = map (\<lambda>r. r\<lparr>label := Key (cells r ''read_id'')\<rparr>) (kept fz runid (rows d2))\<rparr>"
    by (rule init_Inr)
  from f a have [simp]: "d0' = d0" by simp
  from a have "set fields_1D \<subseteq> set (columns (dropna d0))" by (simp add: dropna_def)
  from check_fields_1D [OF this, of fl vb] c
  have rt: "run_type ob = ''1D''" and d2: "d2 = dropna d0"
    by simp_all
  have sub: "set (kept fz runid (rows d2)) \<subseteq> set (rows d0)"
    unfolding d2 by (auto simp: kept_def after_runid_def after_zero_len_def dropna_def)
  show "run_type ob = ''1D''" by (rule rt)
  show "\<forall>r \<in> set (rows (df ob)). \<exists>r0 \<in> set (rows d0). cells r = cells r0"
    using sub unfolding d by auto
next
  assume a: "snd (init fl vc w p runid fz vb) = Inr ob \<and> files w p = Some d0
        \<and> \<not> set fields_1D \<subseteq> set (columns d0) \<and> set fields_2D \<subseteq> set (columns d0)"
  then have ok: "snd (init fl vc w p runid fz vb) = Inr ob" by simp
  from ok obtain d0' o2 d2 where
    f: "files w p = Some d0'" and
    c: "check_fields fl vb (dropna d0') = (o2, Inr (d2, run_type ob))" and
    d: "df ob = \<lparr>columns = filter (\<lambda>c. c \<noteq> ''read_id'') (columns d2),
         rows = map (\<lambda>r. r\<lparr>label := Key (cells r ''read_id'')\<rparr>) (kept fz runid (rows d2))\<rparr>"
    by (rule init_Inr)
  from f a have eq: "d0' = d0" by simp
  from a have no1: "\<not> set fields_1D \<subseteq> set (columns d0)" by simp
  note num = init_2D_numeric [OF c [unfolded eq] no1]
  have sub: "set (kept fz runid (rows d2)) \<subseteq> set (rows d2)"
    by (auto simp: kept_def after_runid_def after_zero_len_def)
  show "run_type ob = ''2D''"
  proof -
    from c have "snd (check_fields fl vb (dropna d0)) = Inr (d2, run_type ob)"
      by (simp add: eq)
    from check_fields_Inr [OF this] no1 show ?thesis by (auto simp: dropna_def)
  qed
  show "\<forall>r \<in> set (rows (df ob)). \<exists>x. cells r ''sequence_length_2d'' = Num x
                \<and> cells r ''duration'' = Num (truediv fl x 450)
                \<and> cells r ''num_events'' = Num (mul fl x 1.8)"
    using sub num unfolding d by auto
next
  assume a: "files w p = Some d0
        \<and> \<not> set fields_1D \<subseteq> set (columns d0) \<and> set fields_2D \<subseteq> set (columns d0)
        \<and> (\<exists>r \<in> set (rows (dropna d0)). \<exists>s. cells r ''sequence_length_2d'' = Str s)"
  then obtain r s where "r \<in> set (rows (dropna d0))" "cells r ''sequence_length_2d'' = Str s"
    by blast
  from init_TypeError [OF _ _ _ this, of w p fl vc runid fz vb] a
  show "snd (init fl vc w p runid fz vb) = Inl TypeError"
    by auto
qed

theorem schema_detection_counterexample:
  "\<not> set fields_1D \<subseteq> set (columns summary_2D_text)
   \<and> set fields_2D \<subseteq> set (columns summary_2D_text)
   \<and> snd (check_fields example_arith False summary_2D_text) = Inl TypeError
   \<and> snd (init example_arith value_counts_insort example_world ''text.txt'' None False False)
       = Inl TypeError"
  by (simp add: model_defs example_defs)

theorem schema_detection_witness:
  "snd (check_fields example_arith False summary_both) = Inr (summary_both, ''1D'')
   \<and> (\<exists>d'. snd (check_fields example_arith False summary_2D) = Inr (d', ''2D'')
         \<and> map (\<lambda>r. cells r ''duration'') (rows d') = [Num 2]
         \<and> map (\<lambda>r. cells r ''num_events'') (rows d') = [Num 1620])
   \<and> snd (check_fields example_arith False summary_2D_text) = Inl TypeError
   \<and> (\<exists>ob. snd (init example_arith value_counts_insort example_world ''both.txt'' None True
                False) = Inr ob
         \<and> run_type ob = ''1D'')
   \<and> (\<exists>ob. snd (init example_arith value_counts_insort example_world ''2d.txt'' None False
                False) = Inr ob
         \<and> run_type ob = ''2D''
         \<and> map (\<lambda>r. cells r ''duration'') (rows (df ob)) = [Num 2]
         \<and> map (\<lambda>r. cells r ''num_events'') (rows (df ob)) = [Num 1620])
   \<and> snd (init example_arith value_counts_insort example_world ''text.txt'' None False False)
       = Inl TypeError"
proof (intro conjI)
  have one: "set fields_1D \<subseteq> set (columns summary_both)"
    by (simp add: fields_1D_def summary_both_def)
  then show "snd (check_fields example_arith False summary_both) = Inr (summary_both, ''1D'')"
    by (rule schema_detection [THEN conjunct1, THEN mp])
  have lay: "\<not> set fields_1D \<subseteq> set (columns summary_2D)" "set fields_2D \<subseteq> set (columns summary_2D)"
    by (simp_all add: fields_1D_def fields_2D_def summary_2D_def)
  have two: "\<not> set fields_1D \<subseteq> set (columns summary_2D) \<and> set fields_2D \<subseteq> set (columns summary_2D)
        \<and> (\<forall>r \<in> set (rows summary_2D). \<exists>x. cells r ''sequence_length_2d'' = Num x)"
    using lay by (simp add: summary_2D_def parsed_row_def)
  from schema_detection [THEN conjunct2, THEN conjunct1, THEN mp, OF two, of example_arith False]
  obtain d' where
    d': "snd (check_fields example_arith False summary_2D) = Inr (d', ''2D'')" and
    est: "list_all2 (\<lambda>r r'. \<exists>x. cells r ''sequence_length_2d'' = Num x
                  \<and> cells r' ''duration'' = Num (truediv example_arith x 450)
                  \<and> cells r' ''num_events'' = Num (mul example_arith x 1.8))
            (rows summary_2D) (rows d')"
    by (elim exE conjE)
  from est have "map (\<lambda>r. cells r ''duration'') (rows d') = [Num 2]
         \<and> map (\<lambda>r. cells r ''num_events'') (rows d') = [Num 1620]"
    by (auto simp: summary_2D_def parsed_row_def example_arith_def list_all2_Cons1)
  with d' show "\<exists>d'. snd (check_fields example_arith False summary_2D) = Inr (d', ''2D'')
         \<and> map (\<lambda>r. cells r ''duration'') (rows d') = [Num 2]
         \<and> map (\<lambda>r. cells r ''num_events'') (rows d') = [Num 1620]"
    by (intro exI [of _ d'] conjI) simp_all
  have laytext: "\<not> set fields_1D \<subseteq> set (columns summary_2D_text)"
    "set fields_2D \<subseteq> set (columns summary_2D_text)"
    by (simp_all add: fields_1D_def fields_2D_def summary_2D_text_def)
  have strs: "\<not> set fields_1D \<subseteq> set (columns summary_2D_text)
      \<and> set fields_2D \<subseteq> set (columns summary_2D_text)
      \<and> (\<exists>r \<in> set (rows summary_2D_text). \<exists>s. cells r ''sequence_length_2d'' = Str s)"
    using laytext by (simp add: summary_2D_text_def parsed_row_def)
  then show "snd (check_fields example_arith False summary_2D_text) = Inl TypeError"
    by (rule schema_detection [THEN conjunct2, THEN conjunct2, THEN conjunct1, THEN mp])
  have f: "files example_world ''both.txt'' = Some summary_both"
    by (simp add: example_world_def)
  have acc: "accepted True summary_both"
    by (simp add: accepted_def numeric_column_def dropna_def complete_def fields_1D_def
        summary_both_def parsed_row_def)
  from f acc have "files example_world ''both.txt'' = Some summary_both
      \<and> accepted True summary_both"
    by (intro conjI)
  from schema_detection [THEN conjunct2, THEN conjunct2, THEN conjunct2, THEN conjunct1,
      THEN mp, OF this, of example_arith value_counts_insort None False]
  obtain ob where
    ob: "snd (init example_arith value_counts_insort example_world ''both.txt'' None True False)
      = Inr ob"
    by (elim exE)
  from ob f one
  have "snd (init example_arith value_counts_insort example_world ''both.txt'' None True False)
        = Inr ob
      \<and> files example_world ''both.txt'' = Some summary_both
      \<and> set fields_1D \<subseteq> set (columns summary_both)"
    by (intro conjI)
  from schema_detection [THEN conjunct2, THEN conjunct2, THEN conjunct2, THEN conjunct2,
      THEN conjunct1, THEN mp, OF this]
  have "run_type ob = ''1D''" by (rule conjunct1)
  with ob
  show "\<exists>ob. snd (init example_arith value_counts_insort example_world ''both.txt'' None True
                False) = Inr ob
         \<and> run_type ob = ''1D''"
    by (intro exI [of _ ob] conjI)
  have "\<exists>ob. snd (init example_arith value_counts_insort example_world ''2d.txt'' None False
        False) = Inr ob
      \<and> map (\<lambda>r. cells r ''sequence_length_2d'') (rows (df ob)) = [Num 900]"
    by (simp add: model_defs example_defs)
  then obtain ob2 where
    ob2: "snd (init example_arith value_counts_insort example_world ''2d.txt'' None False False)
      = Inr ob2"
    and sl: "map (\<lambda>r. cells r ''sequence_length_2d'') (rows (df ob2)) = [Num 900]"
    by (elim exE conjE)
  have f2: "files example_world ''2d.txt'' = Some summary_2D"
    by (simp add: example_world_def)
  from ob2 f2 lay
  have "snd (init example_arith value_counts_insort example_world ''2d.txt'' None False False)
        = Inr ob2
      \<and> files example_world ''2d.txt'' = Some summary_2D
      \<and> \<not> set fields_1D \<subseteq> set (columns summary_2D) \<and> set fields_2D \<subseteq> set (columns summary_2D)"
    by (intro conjI)
  note res = schema_detection [THEN conjunct2, THEN conjunct2, THEN conjunct2, THEN conjunct2,
      THEN conjunct2, THEN conjunct1, THEN mp, OF this]
  from res have rt: "run_type ob2 = ''2D''" by (rule conjunct1)
  from res have
    all: "\<forall>r \<in> set (rows (df ob2)). \<exists>x. cells r ''sequence_length_2d'' = Num x
                \<and> cells r ''duration'' = Num (truediv example_arith x 450)
                \<and> cells r ''num_events'' = Num (mul example_arith x 1.8)"
    by (rule conjunct2)
  from sl all have "map (\<lambda>r. cells r ''duration'') (rows (df ob2)) = [Num 2]
         \<and> map (\<lambda>r. cells r ''num_events'') (rows (df ob2)) = [Num 1620]"
    by (cases "rows (df ob2)") (auto simp: example_arith_def)
  with ob2 rt
  show "\<exists>ob. snd (init example_arith value_counts_insort example_world ''2d.txt'' None False
                False) = Inr ob
         \<and> run_type ob = ''2D''
         \<and> map (\<lambda>r. cells r ''duration'') (rows (df ob)) = [Num 2]
         \<and> map (\<lambda>r. cells r ''num_events'') (rows (df ob)) = [Num 1620]"
    by (intro exI [of _ ob2] conjI) simp_all
  have f3: "files example_world ''text.txt'' = Some summary_2D_text"
    by (simp add: example_world_def)
  have "\<exists>r \<in> set (rows (dropna summary_2D_text)). \<exists>s. cells r ''sequence_length_2d'' = Str s"
    by (simp add: dropna_def complete_def summary_2D_text_def parsed_row_def)
  with f3 laytext
  have "files example_world ''text.txt'' = Some summary_2D_text
        \<and> \<not> set fields_1D \<subseteq> set (columns summary_2D_text)
        \<and> set fields_2D \<subseteq> set (columns summary_2D_text)
        \<and> (\<exists>r \<in> set (rows (dropna summary_2D_text)).
              \<exists>s. cells r ''sequence_length_2d'' = Str s)"
    by (intro conjI)
  then show "snd (init example_arith value_counts_insort example_world ''text.txt'' None False
      False) = Inl TypeError"
    by (rule schema_detection [THEN conjunct2, THEN conjunct2, THEN conjunct2, THEN conjunct2,
      THEN conjunct2, THEN conjunct2, THEN mp])
qed

subsection \<open>The index\<close>

lemma check_fields_rows:
  assumes "check_fields fl vb (dropna d0) = (o2, Inr (d2, rt))"
  shows "rows d2 = checked_rows fl d0"
proof -
  from assms have "snd (check_fields fl vb (dropna d0)) = Inr (d2, rt)" by simp
  from check_fields_Inr [OF this] show ?thesis
    by (auto simp: checked_rows_def dropna_def dest: estimate_2D_rows)
qed

text \<open>
  Claim C3, as the constructor has it. Nothing checks that \<open>read_id\<close> is unique and no
  error is raised for a repeated one: every table that the constructor accepts is turned
  into an object, whatever its \<open>read_id\<close> values, and the \<open>read_id\<close> values of the kept
  reads become the labels of the table, in order and with their repetitions.
\<close>

theorem read_id_index:
  "(files w p = Some d0 \<and> accepted fz d0
      \<longrightarrow> (\<exists>ob. snd (init fl vc w p runid fz vb) = Inr ob
            \<and> map label (rows (df ob))
                = map (\<lambda>r. Key (cells r ''read_id'')) (kept fz runid (checked_rows fl d0))))
   \<and> (snd (init fl vc w p runid fz vb) = Inr ob
      \<longrightarrow> (\<exists>d0. files w p = Some d0
            \<and> map label (rows (df ob))
                = map (\<lambda>r. Key (cells r ''read_id'')) (kept fz runid (checked_rows fl d0))))"
proof -
  have labels: "\<exists>d0. files w p = Some d0
      \<and> map label (rows (df ob))
          = map (\<lambda>r. Key (cells r ''read_id'')) (kept fz runid (checked_rows fl d0))"
    if ok: "snd (init fl vc w p runid fz vb) = Inr ob" for ob
  proof -
    from ok obtain d0 o2 d2 where
      f: "files w p = Some d0" and
      c: "check_fields fl vb (dropna d0) = (o2, Inr (d2, run_type ob))" and
      d: "df ob = \<lparr>columns = filter (\<lambda>c. c \<noteq> ''read_id'') (columns d2),
           rows = map (\<lambda>r. r\<lparr>label := Key (cells r ''read_id'')\<rparr>) (kept fz runid (rows d2))\<rparr>"
      by (rule init_Inr)
    have "map label (rows (df ob))
        = map (\<lambda>r. Key (cells r ''read_id'')) (kept fz runid (checked_rows fl d0))"
      unfolding d check_fields_rows [OF c, symmetric] by (simp add: comp_def)
    with f show ?thesis by blast
  qed
  show ?thesis
  proof (intro conjI impI)
    assume a: "files w p = Some d0 \<and> accepted fz d0"
    then obtain ob where ok: "snd (init fl vc w p runid fz vb) = Inr ob"
      using init_accepts [of w p d0 fz fl vc runid vb] by blast
    from labels [OF ok] a
    have "map label (rows (df ob))
        = map (\<lambda>r. Key (cells r ''read_id'')) (kept fz runid (checked_rows fl d0))"
      by auto
    with ok show "\<exists>ob. snd (init fl vc w p runid fz vb) = Inr ob
            \<and> map label (rows (df ob))
                = map (\<lambda>r. Key (cells r ''read_id'')) (kept fz runid (checked_rows fl d0))"
      by blast
  next
    assume "snd (init fl vc w p runid fz vb) = Inr ob"
    then show "\<exists>d0. files w p = Some d0
            \<and> map label (rows (df ob))
                = map (\<lambda>r. Key (cells r ''read_id'')) (kept fz runid (checked_rows fl d0))"
      by (rule labels)
  qed
qed

theorem read_id_index_witness:
  "accepted False summary_dup
   \<and> (\<exists>ob. snd (init example_arith value_counts_insort example_world ''dup.txt'' None False
                False) = Inr ob
         \<and> map label (rows (df ob)) = [Key (Str ''A''), Key (Str ''A'')])"
proof (rule conjI)
  show acc: "accepted False summary_dup"
    by (simp add: accepted_def fields_1D_def summary_dup_def)
  have f: "files example_world ''dup.txt'' = Some summary_dup"
    by (simp add: example_world_def)
  from f acc have "files example_world ''dup.txt'' = Some summary_dup \<and> accepted False summary_dup"
    by (intro conjI)
  from read_id_index [THEN conjunct1, THEN mp, OF this,
      of example_arith value_counts_insort None False]
  obtain ob where
    ob: "snd (init example_arith value_counts_insort example_world ''dup.txt'' None False False)
      = Inr ob" and
    l: "map label (rows (df ob))
      = map (\<lambda>r. Key (cells r ''read_id''))
          (kept False None (checked_rows example_arith summary_dup))"
    by (elim exE conjE)
  from ob have "snd (init example_arith value_counts_insort example_world ''dup.txt'' None False
      False) = Inr ob"
    by simp
  from read_id_index [THEN conjunct2, THEN mp, OF this]
  have "\<exists>d0. files example_world ''dup.txt'' = Some d0" by blast
  from l have "map label (rows (df ob)) = [Key (Str ''A''), Key (Str ''A'')]"
    by (simp add: kept_def after_runid_def after_zero_len_def checked_rows_def dropna_def
        complete_def fields_1D_def summary_dup_def parsed_row_def)
  with ob
  show "\<exists>ob. snd (init example_arith value_counts_insort example_world ''dup.txt'' None False
                False) = Inr ob
         \<and> map label (rows (df ob)) = [Key (Str ''A''), Key (Str ''A'')]"
    by (intro exI [of _ ob] conjI)
qed

theorem duplicate_read_id_accepted:
  "attribute (\<lambda>ob. map label (rows (df ob)))
     (init example_arith value_counts_insort example_world ''dup.txt'' None False False)
   = Some [Key (Str ''A''), Key (Str ''A'')]"
  by (simp add: model_defs example_defs)

subsection \<open>Two runs on the same file\<close>

lemma io_bind_same:
  assumes "snd m1 = snd m2"
    and "\<And>x. map_sum id g (snd (f1 x)) = map_sum id g (snd (f2 x))"
  shows "map_sum id g (snd (io_bind m1 f1)) = map_sum id g (snd (io_bind m2 f2))"
proof (cases "snd m2")
  case (Inl e)
  with assms(1) have "m1 = (fst m1, Inl e)" "m2 = (fst m2, Inl e)"
    by (simp_all add: prod_eq_iff)
  then have "snd (io_bind m1 f1) = Inl e" "snd (io_bind m2 f2) = Inl e"
    by (metis io_bind_Inl snd_conv)+
  then show ?thesis by simp
next
  case (Inr x)
  with assms(1) have "m1 = (fst m1, Inr x)" "m2 = (fst m2, Inr x)"
    by (simp_all add: prod_eq_iff)
  then have "snd (io_bind m1 f1) = snd (f1 x)" "snd (io_bind m2 f2) = snd (f2 x)"
    by (metis io_bind_Inr snd_conv)+
  with assms(2) [of x] show ?thesis by simp
qed

lemma io_bind_same_snd:
  assumes "snd m1 = snd m2" and "\<And>x. snd (f1 x) = snd (f2 x)"
  shows "snd (io_bind m1 f1) = snd (io_bind m2 f2)"
  using io_bind_same [of m1 m2 id f1 f2] assms by (simp add: sum.map_id0)

lemma snd_say [simp]: "snd (io_when b (io_print m)) = Inr ()"
  by (simp add: io_defs)

lemma snd_check_fields: "snd (check_fields fl vb1 d) = snd (check_fields fl vb2 d)"
  unfolding check_fields_def
  by (intro io_bind_same_snd) (simp_all add: io_defs split: prod.splits)

lemma snd_filter_zero_len_reads:
  "snd (filter_zero_len_reads fz vb1 d) = snd (filter_zero_len_reads fz vb2 d)"
  unfolding filter_zero_len_reads_def Let_def
  by (cases fz) (simp_all add: io_bind_same_snd io_defs)

lemma snd_select_runid: "snd (select_runid runid vb1 d) = snd (select_runid runid vb2 d)"
  unfolding select_runid_def Let_def
  by (cases "truthy runid") (simp_all add: io_bind_same_snd io_defs)

lemma table_and_counters_init_body:
  assumes "files w1 p = files w2 p"
  shows "table_and_counters (snd (init_body fl vc1 w1 p runid fz vb1))
    = table_and_counters (snd (init_body fl vc2 w2 p runid fz vb2))"
  unfolding init_body_def table_and_counters_def Let_def case_prod_beta
  by (intro io_bind_same)
    (simp_all add: snd_check_fields [of fl vb1 _ vb2]
      snd_filter_zero_len_reads [of fz vb1 _ vb2] snd_select_runid [of runid vb1 _ vb2]
      io_defs read_csv_def assms)

lemma result_init_body:
  assumes "files w1 p = files w2 p"
  shows "result (snd (init_body fl vc w1 p runid fz vb1))
    = result (snd (init_body fl vc w2 p runid fz vb2))"
  unfolding init_body_def result_def Let_def case_prod_beta
  by (intro io_bind_same)
    (simp_all add: snd_check_fields [of fl vb1 _ vb2]
      snd_filter_zero_len_reads [of fz vb1 _ vb2] snd_select_runid [of runid vb1 _ vb2]
      io_defs read_csv_def assms)

text \<open>
  Claim C9. What a run of the constructor leaves, that is the table, the layout, the
  counters and the table of counts, or else the error, depends on the table of the file
  and on the two filter arguments only: not on the rest of the world, such as the lines
  that an earlier run printed, and not on \<open>verbose\<close>. The table and the counters do not
  depend on how \<^verbatim>\<open>value_counts\<close> orders its entries either. No file is changed by a
  run. So a second run on the same file with the same filter arguments leaves what the
  first left.
\<close>

theorem init_deterministic:
  assumes "files w1 p = files w2 p"
  shows "result (snd (init fl vc w1 p runid fz vb1))
      = result (snd (init fl vc w2 p runid fz vb2))
    \<and> table_and_counters (snd (init fl vc1 w1 p runid fz vb1))
      = table_and_counters (snd (init fl vc2 w2 p runid fz vb2))
    \<and> files (fst (init fl vc w1 p runid fz vb1)) = files w1"
proof (intro conjI)
  show "result (snd (init fl vc w1 p runid fz vb1))
      = result (snd (init fl vc w2 p runid fz vb2))"
    unfolding snd_init by (rule result_init_body [OF assms])
  show "table_and_counters (snd (init fl vc1 w1 p runid fz vb1))
      = table_and_counters (snd (init fl vc2 w2 p runid fz vb2))"
    unfolding snd_init by (rule table_and_counters_init_body [OF assms])
  show "files (fst (init fl vc w1 p runid fz vb1)) = files w1"
    by (rule files_init)
qed

theorem init_deterministic_witness:
  "result (snd (init example_arith value_counts_insort
       (fst (init example_arith value_counts_insort example_world ''1d.txt'' (Some ''r1'')
          True True))
       ''1d.txt'' (Some ''r1'') True False))
     = result (snd (init example_arith value_counts_insort example_world ''1d.txt''
         (Some ''r1'') True True))
   \<and> files (fst (init example_arith value_counts_insort example_world ''1d.txt''
         (Some ''r1'') True True))
     = files example_world
   \<and> attribute total_reads (init example_arith value_counts_insort example_world ''1d.txt''
         (Some ''r1'') True True) = Some 1"
proof (intro conjI)
  have same: "files example_world ''1d.txt''
      = files (fst (init example_arith value_counts_insort example_world ''1d.txt''
          (Some ''r1'') True True)) ''1d.txt''"
    by (simp add: files_init)
  note det = init_deterministic [OF same, of example_arith value_counts_insort "Some ''r1''"
      True True False]
  from det
  show "result (snd (init example_arith value_counts_insort
       (fst (init example_arith value_counts_insort example_world ''1d.txt'' (Some ''r1'')
          True True))
       ''1d.txt'' (Some ''r1'') True False))
     = result (snd (init example_arith value_counts_insort example_world ''1d.txt''
         (Some ''r1'') True True))"
    by simp
  from det
  show "files (fst (init example_arith value_counts_insort example_world ''1d.txt''
         (Some ''r1'') True True))
     = files example_world"
    by simp
  show "attribute total_reads (init example_arith value_counts_insort example_world ''1d.txt''
         (Some ''r1'') True True) = Some 1"
    by (simp add: model_defs example_defs)
qed

end
